theory Spec2Isabelle
  imports Complex_Main
begin

section \<open>Common vocabulary of the controller variants\<close>

text \<open>
  The repository holds several variants of one signal-homing controller for a PiCar-X robot.
  The variants embedded here are \<^verbatim>\<open>final_version.py\<close> (burst sampling, debounced obstacle
  monitor, k-of-N verification), \<^verbatim>\<open>test12.py\<close> and \<^verbatim>\<open>test24.py\<close> (Kalman smoothing, steering
  clamp, optional vision) and \<^verbatim>\<open>test25.py\<close> (Kalman smoothing on top of burst sampling, debounce
  and timed verification).

  Python floats are modelled as \<^typ>\<open>real\<close> (exact arithmetic; the Kalman filter is also
  modelled with the rounding of double precision, in its own section), Python
  ints as \<^typ>\<open>int\<close>, \<^verbatim>\<open>Optional[float]\<close> as \<^typ>\<open>real option\<close>. The robot state is a string
  in the source; only the five values below are ever assigned or compared.
  Calls to the motor, servo and camera-head drivers and \<^verbatim>\<open>time.sleep\<close> are recorded as the
  list of actions a loop iteration emits; \<^verbatim>\<open>print\<close> and audio playback are left out, they
  neither read nor write controller fields.
\<close>

datatype nav_state = SEARCH | APPROACH | VERIFY | AVOID | FINISH

datatype action =
    Stop
  | Forward int
  | Backward int
  | SetDirServoAngle int
  | SetCamPanAngle int
  | SetCamTiltAngle int
  | Sleep real

datatype error = ZeroDivisionError

text \<open>One pass through the body of \<^verbatim>\<open>while True\<close>: the loop goes on (fall-through or
  \<^verbatim>\<open>continue\<close>), leaves through \<^verbatim>\<open>break\<close>, or is left by an exception.\<close>

datatype 's loop_result = Next 's "action list" | Break 's "action list" | Raised error

text \<open>\<^verbatim>\<open>int(x)\<close> on a float truncates toward zero.\<close>

definition py_int :: "real \<Rightarrow> int" where
  "py_int v = (if 0 \<le> v then \<lfloor>v\<rfloor> else \<lceil>v\<rceil>)"

text \<open>\<^verbatim>\<open>a % b\<close> on floats with a positive divisor takes the sign of the divisor.\<close>

definition py_fmod :: "real \<Rightarrow> real \<Rightarrow> real" where
  "py_fmod a b = a - b * of_int \<lfloor>a / b\<rfloor>"


section \<open>\<^verbatim>\<open>final_version.py\<close>\<close>

text \<open>
  \<^verbatim>\<open>wifi_bot3.py\<close> has the same sensor, obstacle monitor and handlers with other values of the
  tunables; it differs in the motion only: its SEARCH handler spirals instead of timing
  straight and turning phases, its avoidance looks left and right before turning, and its
  failed verification resets the spiral angle.
\<close>

subsection \<open>Tunables\<close>

text \<open>
  The thresholds and the verification counts differ from variant to variant and are the
  parameters of the controller; the timings and speeds are the module's constants.
\<close>

record config =
  TARGET_RSSI :: real
  APPROACH_THRESHOLD :: real
  VERIFY_TOTAL_CHECKS :: int
  VERIFY_REQUIRED_HITS :: int
  OBSTACLE_DIST_CM :: real

definition final_version_config :: config where
  "final_version_config =
     \<lparr> TARGET_RSSI = -48.5, APPROACH_THRESHOLD = -53,
       VERIFY_TOTAL_CHECKS = 20, VERIFY_REQUIRED_HITS = 4,
       OBSTACLE_DIST_CM = 25 \<rparr>"

definition TIME_STRAIGHT :: real where "TIME_STRAIGHT = 8.0"
definition TIME_TURN :: real where "TIME_TURN = 3.0"
definition SPEED_SEARCH :: int where "SPEED_SEARCH = 40"
definition SPEED_APPROACH :: int where "SPEED_APPROACH = 25"
definition SPEED_AVOID :: int where "SPEED_AVOID = 40"

subsection \<open>\<^verbatim>\<open>WiFiSensor.get_averaged_rssi\<close>\<close>

text \<open>
  The argument is the list of results of the \<^verbatim>\<open>count\<close> calls of \<^verbatim>\<open>_read_raw\<close>, in order;
  a failed read is \<^verbatim>\<open>None\<close> and is skipped. \<^verbatim>\<open>int(len(readings) * 0.1)\<close> is
  \<open>length readings div 10\<close>: the double nearest to one tenth lies above one tenth, so the
  rounded product never falls below the integer part of the exact tenth.
  \<^verbatim>\<open>readings[t:-t]\<close> for \<open>0 < t\<close> keeps the indices \<open>t \<le> i < n - t\<close>.
\<close>

definition mean :: "real list \<Rightarrow> real" where
  "mean xs = sum_list xs / of_nat (length xs)"

definition get_averaged_rssi :: "real option list \<Rightarrow> real option" where
  "get_averaged_rssi reads =
     (let readings = List.map_filter (\<lambda>v. v) reads in
      if readings = [] then None
      else
        let readings =
              (if 5 \<le> length readings then
                 (let readings = sort readings;
                      trim_amt = length readings div 10
                  in if 0 < trim_amt
                     then drop trim_amt (take (length readings - trim_amt) readings)
                     else readings)
               else readings)
        in if readings = [] then None else Some (mean readings))"

subsection \<open>\<^verbatim>\<open>NavigationController\<close>\<close>

record ctrl =
  state :: nav_state
  prev_avg_rssi :: real
  search_start_time :: real
  consecutive_drops :: int
  obstacle_counter :: int
  verify_counter :: int
  verify_hits :: int

text \<open>\<^verbatim>\<open>__init__\<close>; \<open>now\<close> is the clock value read there.\<close>

definition ctrl_init :: "real \<Rightarrow> ctrl" where
  "ctrl_init now =
     \<lparr> state = SEARCH, prev_avg_rssi = -100.0, search_start_time = now,
       consecutive_drops = 0, obstacle_counter = 0, verify_counter = 0, verify_hits = 0 \<rparr>"

text \<open>The start of \<^verbatim>\<open>run\<close>, before the loop: the first burst estimate, when there is one and
  it is not zero, becomes the value the first delta is taken from.\<close>

definition run_start :: "real \<Rightarrow> real option \<Rightarrow> ctrl" where
  "run_start now start_val =
     (let s = ctrl_init now;
          s = (case start_val of
                 None \<Rightarrow> s
               | Some v \<Rightarrow> if v \<noteq> 0 then s\<lparr>prev_avg_rssi := v\<rparr> else s)
      in s\<lparr>search_start_time := now\<rparr>)"

text \<open>\<^verbatim>\<open>check_obstacle\<close>: \<open>dist_cm\<close> is the value \<^verbatim>\<open>px.ultrasonic.read()\<close> returned; the
  test \<^verbatim>\<open>dist and 0 < dist < OBSTACLE_DIST_CM\<close> is false for \<^verbatim>\<open>None\<close> and for zero.\<close>

definition check_obstacle :: "config \<Rightarrow> real option \<Rightarrow> ctrl \<Rightarrow> bool \<times> ctrl" where
  "check_obstacle cfg dist_cm s =
     (let s' = (if (case dist_cm of
                      None \<Rightarrow> False
                    | Some d \<Rightarrow> d \<noteq> 0 \<and> 0 < d \<and> d < OBSTACLE_DIST_CM cfg)
                then s\<lparr>obstacle_counter := obstacle_counter s + 1\<rparr>
                else s\<lparr>obstacle_counter := 0\<rparr>)
      in (2 \<le> obstacle_counter s', s'))"

definition avoid_obstacle :: "config \<Rightarrow> real \<Rightarrow> ctrl \<Rightarrow> ctrl \<times> action list" where
  "avoid_obstacle cfg now s =
     (s\<lparr>state := SEARCH, search_start_time := now\<rparr>,
      [Stop, SetDirServoAngle 0, Backward SPEED_AVOID, Sleep 1.0,
       SetDirServoAngle (-35), Forward SPEED_AVOID, Sleep 0.8])"

definition handle_search :: "config \<Rightarrow> real \<Rightarrow> real \<Rightarrow> ctrl \<Rightarrow> ctrl \<times> action list" where
  "handle_search cfg now curr_rssi s =
     (if curr_rssi > APPROACH_THRESHOLD cfg
      then (s\<lparr>state := APPROACH, consecutive_drops := 0\<rparr>, [])
      else
        let elapsed = now - search_start_time s;
            cycle_duration = TIME_STRAIGHT + TIME_TURN;
            phase_time = py_fmod elapsed cycle_duration
        in if phase_time < TIME_STRAIGHT
           then (s, [SetDirServoAngle 0, Forward SPEED_SEARCH])
           else (s, [SetDirServoAngle (-35), Forward SPEED_SEARCH]))"

definition handle_approach :: "config \<Rightarrow> real \<Rightarrow> real \<Rightarrow> ctrl \<Rightarrow> ctrl \<times> action list" where
  "handle_approach cfg curr_rssi delta s =
     (if curr_rssi \<ge> TARGET_RSSI cfg
      then (s\<lparr>state := VERIFY, verify_counter := 0, verify_hits := 0\<rparr>, [Stop])
      else if delta \<ge> 0
      then (s\<lparr>consecutive_drops := 0\<rparr>,
            [SetDirServoAngle 0, Forward SPEED_APPROACH])
      else
        let s1 = s\<lparr>consecutive_drops := consecutive_drops s + 1\<rparr>
        in if consecutive_drops s1 \<ge> 3
           then (s1\<lparr>consecutive_drops := 0\<rparr>,
                 [Stop, Backward SPEED_APPROACH, SetDirServoAngle (-30), Sleep 0.8])
           else (s1, [SetDirServoAngle (-20), Forward SPEED_APPROACH]))"

definition handle_verify :: "config \<Rightarrow> real \<Rightarrow> real \<Rightarrow> ctrl \<Rightarrow> ctrl \<times> action list" where
  "handle_verify cfg now curr_rssi s =
     (let s1 = s\<lparr>verify_counter := verify_counter s + 1\<rparr>;
          hit = (curr_rssi \<ge> TARGET_RSSI cfg);
          s2 = (if hit then s1\<lparr>verify_hits := verify_hits s1 + 1\<rparr> else s1)
      in if verify_counter s2 \<ge> VERIFY_TOTAL_CHECKS cfg
         then (if verify_hits s2 \<ge> VERIFY_REQUIRED_HITS cfg
               then (s2\<lparr>state := FINISH\<rparr>, [])
               else (s2\<lparr>state := SEARCH, search_start_time := now\<rparr>,
                     [Backward SPEED_APPROACH, SetDirServoAngle (-30), Sleep 1.0]))
         else (s2, []))"

text \<open>
  The inputs of one iteration of the loop in \<^verbatim>\<open>run\<close>: the burst estimate
  \<^verbatim>\<open>get_averaged_rssi(BURST_SAMPLES)\<close> returned, the rangefinder value (read only when the
  state is not FINISH), and the clock value read by whichever of \<^verbatim>\<open>handle_search\<close>,
  \<^verbatim>\<open>handle_verify\<close> or \<^verbatim>\<open>avoid_obstacle\<close> runs.
\<close>

record tick_input =
  in_rssi :: "real option"
  in_dist :: "real option"
  in_now :: real

text \<open>The \<^verbatim>\<open>if/elif\<close> chain on the state, followed by \<^verbatim>\<open>self.prev_avg_rssi = curr_rssi\<close>.\<close>

definition dispatch :: "config \<Rightarrow> real \<Rightarrow> real \<Rightarrow> real \<Rightarrow> ctrl \<Rightarrow> ctrl loop_result" where
  "dispatch cfg now curr_rssi rssi_delta s =
     (case state s of
        SEARCH \<Rightarrow>
          (let (s', acts) = handle_search cfg now curr_rssi s
           in Next (s'\<lparr>prev_avg_rssi := curr_rssi\<rparr>) acts)
      | APPROACH \<Rightarrow>
          (let (s', acts) = handle_approach cfg curr_rssi rssi_delta s
           in Next (s'\<lparr>prev_avg_rssi := curr_rssi\<rparr>) acts)
      | VERIFY \<Rightarrow>
          (let (s', acts) = handle_verify cfg now curr_rssi s
           in Next (s'\<lparr>prev_avg_rssi := curr_rssi\<rparr>) acts)
      | FINISH \<Rightarrow> Break s [Stop, Stop, Sleep 5]
      | AVOID \<Rightarrow> Next (s\<lparr>prev_avg_rssi := curr_rssi\<rparr>) [])"

definition loop_body :: "config \<Rightarrow> tick_input \<Rightarrow> ctrl \<Rightarrow> ctrl loop_result" where
  "loop_body cfg inp s =
     (case in_rssi inp of
        None \<Rightarrow> Next s []
      | Some curr_rssi \<Rightarrow>
          let rssi_delta = curr_rssi - prev_avg_rssi s in
          if state s \<noteq> FINISH then
            (let (obstacle, s1) = check_obstacle cfg (in_dist inp) s
             in if obstacle
                then (let (s2, acts) = avoid_obstacle cfg (in_now inp) s1 in Next s2 acts)
                else dispatch cfg (in_now inp) curr_rssi rssi_delta s1)
          else dispatch cfg (in_now inp) curr_rssi rssi_delta s)"

text \<open>The loop over a finite list of iterations' inputs; the controller after the last one
  (or at the \<^verbatim>\<open>break\<close>).\<close>

fun run :: "config \<Rightarrow> ctrl \<Rightarrow> tick_input list \<Rightarrow> ctrl" where
  "run cfg s [] = s"
| "run cfg s (inp # inps) =
     (case loop_body cfg inp s of
        Next s' acts \<Rightarrow> run cfg s' inps
      | Break s' acts \<Rightarrow> s'
      | Raised e \<Rightarrow> s)"

text \<open>The flags \<^verbatim>\<open>check_obstacle\<close> returns over a sequence of rangefinder values.\<close>

fun observe_all :: "config \<Rightarrow> ctrl \<Rightarrow> real option list \<Rightarrow> bool list" where
  "observe_all cfg s [] = []"
| "observe_all cfg s (d # ds) =
     (let (flag, s') = check_obstacle cfg d s in flag # observe_all cfg s' ds)"

fun observe_ctrl :: "config \<Rightarrow> ctrl \<Rightarrow> real option list \<Rightarrow> ctrl" where
  "observe_ctrl cfg s [] = s"
| "observe_ctrl cfg s (d # ds) = observe_ctrl cfg (snd (check_obstacle cfg d s)) ds"

text \<open>The VERIFY handler over a sequence of (clock, sample) pairs.\<close>

fun verify_all :: "config \<Rightarrow> ctrl \<Rightarrow> (real \<times> real) list \<Rightarrow> ctrl" where
  "verify_all cfg s [] = s"
| "verify_all cfg s ((now, curr_rssi) # rest) =
     verify_all cfg (fst (handle_verify cfg now curr_rssi s)) rest"

text \<open>A rangefinder value that counts as an obstacle reading: \<open>0 < distance < OBSTACLE_DIST_CM\<close>.\<close>

definition close_reading :: "config \<Rightarrow> real option \<Rightarrow> bool" where
  "close_reading cfg dist_cm =
     (case dist_cm of None \<Rightarrow> False | Some v \<Rightarrow> 0 < v \<and> v < OBSTACLE_DIST_CM cfg)"

text \<open>The number of samples of a sequence that reach the target.\<close>

definition hits_of :: "config \<Rightarrow> (real \<times> real) list \<Rightarrow> nat" where
  "hits_of cfg xs = length (filter (\<lambda>(now, curr_rssi). curr_rssi \<ge> TARGET_RSSI cfg) xs)"

text \<open>The state after each iteration of the loop.\<close>

fun states_after :: "config \<Rightarrow> ctrl \<Rightarrow> tick_input list \<Rightarrow> nav_state list" where
  "states_after cfg s [] = []"
| "states_after cfg s (inp # inps) =
     (case loop_body cfg inp s of
        Next s' acts \<Rightarrow> state s' # states_after cfg s' inps
      | Break s' acts \<Rightarrow> [state s']
      | Raised e \<Rightarrow> [])"


section \<open>The Kalman variants: \<^verbatim>\<open>test12.py\<close>, \<^verbatim>\<open>test24.py\<close>, \<^verbatim>\<open>test25.py\<close>\<close>

text \<open>The three files share these module constants (suffixed here, the names are taken by
  the parameters of \<^verbatim>\<open>final_version.py\<close>).\<close>

definition TARGET_RSSI_K :: real where "TARGET_RSSI_K = -46"
definition APPROACH_THRESHOLD_K :: real where "APPROACH_THRESHOLD_K = -50"
definition PROCESS_NOISE_Q :: real where "PROCESS_NOISE_Q = 0.05"
definition MEASUREMENT_NOISE_R :: real where "MEASUREMENT_NOISE_R = 2.0"
definition MAX_STEER_ANGLE :: int where "MAX_STEER_ANGLE = 35"
definition OBSTACLE_DIST_CM_K :: real where "OBSTACLE_DIST_CM_K = 25"
definition SPEED_SEARCH_K :: int where "SPEED_SEARCH_K = 40"
definition SPEED_APPROACH_K :: int where "SPEED_APPROACH_K = 30"

text \<open>\<^verbatim>\<open>test25.py\<close> only.\<close>

definition OBSTACLE_CONFIRM_COUNT :: int where "OBSTACLE_CONFIRM_COUNT = 3"
definition VERIFY_DURATION :: real where "VERIFY_DURATION = 20"
definition VERIFY_REQUIRED_HITS_K :: int where "VERIFY_REQUIRED_HITS_K = 4"

text \<open>\<^verbatim>\<open>test24.py\<close> only.\<close>

definition VISION_FREE_AHEAD_MIN :: real where "VISION_FREE_AHEAD_MIN = 0.55"
definition VISION_STEER_GAIN :: real where "VISION_STEER_GAIN = 1.35"

definition clamp :: "real \<Rightarrow> real \<Rightarrow> real \<Rightarrow> real" where
  "clamp v lo hi = (if v < lo then lo else if v > hi then hi else v)"

subsection \<open>\<^verbatim>\<open>RSSIKalmanFilter\<close>\<close>

record kalman =
  kf_R :: real
  kf_Q :: real
  kf_x :: real
  kf_P :: real

definition kf_init :: "real \<Rightarrow> real \<Rightarrow> real \<Rightarrow> kalman" where
  "kf_init R Q initial_value = \<lparr> kf_R = R, kf_Q = Q, kf_x = initial_value, kf_P = 1.0 \<rparr>"

text \<open>\<^verbatim>\<open>filter\<close>: the returned estimate and the filter after the call. The division raises
  when \<open>p_pred + R\<close> is zero, before any field is assigned.\<close>

definition kf_filter :: "real option \<Rightarrow> kalman \<Rightarrow> error + (real \<times> kalman)" where
  "kf_filter measurement f =
     (case measurement of
        None \<Rightarrow> Inr (kf_x f, f)
      | Some z \<Rightarrow>
          let p_pred = kf_P f + kf_Q f in
          if p_pred + kf_R f = 0 then Inl ZeroDivisionError
          else
            let K = p_pred / (p_pred + kf_R f);
                x' = kf_x f + K * (z - kf_x f);
                P' = (1 - K) * p_pred
            in Inr (x', f\<lparr>kf_x := x', kf_P := P'\<rparr>))"

text \<open>The filter fed one measurement per call: the variance reported after each call, as far
  as the calls return.\<close>

fun variances :: "kalman \<Rightarrow> real list \<Rightarrow> real list" where
  "variances f [] = []"
| "variances f (z # zs) =
     (case kf_filter (Some z) f of
        Inl e \<Rightarrow> []
      | Inr (v, f') \<Rightarrow> kf_P f' # variances f' zs)"

subsection \<open>The controllers\<close>

text \<open>
  \<^verbatim>\<open>test12.py\<close> and \<^verbatim>\<open>test24.py\<close> keep the filter, the state, the last filtered value and the
  spiral angle (the camera, the segmentation model and the vision rate limiter of
  \<^verbatim>\<open>test24.py\<close> belong to the vision collaborator, whose result is an input here);
  \<^verbatim>\<open>test25.py\<close> adds the debounce counter and the verification fields.
\<close>

record kctrl =
  kf :: kalman
  state_k :: nav_state
  last_rssi :: real
  spiral_angle :: real

record ctrl25 = kctrl +
  obstacle_counter_k :: int
  verify_start_time :: real
  verify_hits_k :: int

definition kctrl_init :: kctrl where
  "kctrl_init =
     \<lparr> kf = kf_init MEASUREMENT_NOISE_R PROCESS_NOISE_Q (-70),
       state_k = SEARCH, last_rssi = -100.0, spiral_angle = of_int (- MAX_STEER_ANGLE) \<rparr>"

definition ctrl25_init :: ctrl25 where
  "ctrl25_init =
     \<lparr> kf = kf_init MEASUREMENT_NOISE_R PROCESS_NOISE_Q (-70),
       state_k = SEARCH, last_rssi = -100.0, spiral_angle = of_int (- MAX_STEER_ANGLE),
       obstacle_counter_k = 0, verify_start_time = 0, verify_hits_k = 0 \<rparr>"

text \<open>The score dictionary \<^verbatim>\<open>vision_step\<close> returns (a non-empty dictionary is truthy).\<close>

record scores =
  free_left :: real
  free_right :: real
  free_ahead :: real
  window_risk :: bool

text \<open>
  The inputs of one loop iteration: the value of \<^verbatim>\<open>get_rssi()\<close> (in \<^verbatim>\<open>test25.py\<close> of
  \<^verbatim>\<open>get_stable_rssi(BURST_SAMPLES)\<close>), the forward rangefinder value, the two rangefinder
  values \<^verbatim>\<open>scan_surroundings\<close> reads when it runs, the result of \<^verbatim>\<open>vision_step()\<close>
  (\<^verbatim>\<open>test24.py\<close>) and the clock (\<^verbatim>\<open>test25.py\<close>).
\<close>

record kinput =
  raw_rssi :: "real option"
  range_cm :: "real option"
  scan_left :: "real option"
  scan_right :: "real option"
  vision :: "scores option"
  clock :: real

text \<open>\<^verbatim>\<open>dist is not None and dist > 0 and dist < OBSTACLE_DIST_CM\<close>\<close>

definition close_k :: "real option \<Rightarrow> bool" where
  "close_k dist_cm =
     (case dist_cm of None \<Rightarrow> False | Some v \<Rightarrow> v > 0 \<and> v < OBSTACLE_DIST_CM_K)"

text \<open>\<^verbatim>\<open>rssi = self.kf.filter(raw_rssi) if raw_rssi is not None else self.last_rssi\<close>\<close>

definition smooth :: "real option \<Rightarrow> 'a kctrl_scheme \<Rightarrow> error + (real \<times> 'a kctrl_scheme)" where
  "smooth raw s =
     (case raw of
        None \<Rightarrow> Inr (last_rssi s, s)
      | Some z \<Rightarrow>
          (case kf_filter (Some z) (kf s) of
             Inl e \<Rightarrow> Inl e
           | Inr (v, f') \<Rightarrow> Inr (v, s\<lparr>kf := f'\<rparr>)))"

text \<open>\<^verbatim>\<open>scan_surroundings\<close> returns the direction; the three files differ in the pauses.\<close>

definition scan_direction :: "real option \<Rightarrow> real option \<Rightarrow> int" where
  "scan_direction dist_left dist_right =
     (let dist_left = (case dist_left of None \<Rightarrow> 0 | Some v \<Rightarrow> v);
          dist_right = (case dist_right of None \<Rightarrow> 0 | Some v \<Rightarrow> v)
      in if dist_left > dist_right then -1 else 1)"

definition center_head :: "action list" where
  "center_head = [SetCamPanAngle 0, SetCamTiltAngle 0]"

definition scan_actions12 :: "action list" where
  "scan_actions12 =
     [Stop, Sleep 0.2, SetCamPanAngle (-45), Sleep 0.3, SetCamPanAngle 45, Sleep 0.3]
     @ center_head @ [Sleep 0.2]"

definition scan_actions24 :: "action list" where
  "scan_actions24 =
     [Stop, Sleep 0.2, SetCamPanAngle (-45), Sleep 0.25, SetCamPanAngle 45, Sleep 0.25]
     @ center_head @ [Sleep 0.1]"

definition scan_actions25 :: "action list" where
  "scan_actions25 =
     [Stop, Sleep 0.2, SetCamPanAngle (-45), Sleep 0.3, SetCamPanAngle 45, Sleep 0.3]
     @ center_head"

text \<open>The spiral of the SEARCH branch: the angle sent to the servo and the update.\<close>

definition spiral_step :: "'a kctrl_scheme \<Rightarrow> 'a kctrl_scheme" where
  "spiral_step s =
     (if spiral_angle s < 0 then s\<lparr>spiral_angle := spiral_angle s + 0.05\<rparr>
      else s\<lparr>spiral_angle := of_int (- MAX_STEER_ANGLE)\<rparr>)"


subsection \<open>The loop body of \<^verbatim>\<open>test12.py\<close>\<close>

definition tick12 :: "kinput \<Rightarrow> kctrl \<Rightarrow> kctrl loop_result" where
  "tick12 inp s =
     (case smooth (raw_rssi inp) s of
        Inl e \<Rightarrow> Raised e
      | Inr (rssi, s) \<Rightarrow>
          let s = (if close_k (range_cm inp) \<and> state_k s \<noteq> FINISH
                   then s\<lparr>state_k := AVOID\<rparr> else s)
          in case state_k s of
               AVOID \<Rightarrow>
                 (let direction = scan_direction (scan_left inp) (scan_right inp);
                      turn_angle = direction * MAX_STEER_ANGLE
                  in Next (s\<lparr>last_rssi := rssi, state_k := SEARCH\<rparr>)
                       (scan_actions12 @
                        [SetDirServoAngle 0, Backward SPEED_SEARCH_K, Sleep 0.8,
                         SetDirServoAngle turn_angle, Forward SPEED_SEARCH_K, Sleep 0.5,
                         Sleep 0.05]))
             | SEARCH \<Rightarrow>
                 (if rssi > APPROACH_THRESHOLD_K
                  then Next (s\<lparr>state_k := APPROACH\<rparr>) [SetDirServoAngle 0]
                  else Next ((spiral_step s)\<lparr>last_rssi := rssi\<rparr>)
                         [Forward SPEED_SEARCH_K, SetDirServoAngle (py_int (spiral_angle s)),
                          Sleep 0.05])
             | APPROACH \<Rightarrow>
                 (if rssi \<ge> TARGET_RSSI_K
                  then Next (s\<lparr>state_k := FINISH\<rparr>) []
                  else
                    let delta = rssi - last_rssi s
                    in if delta \<ge> 0
                       then Next (s\<lparr>last_rssi := rssi\<rparr>)
                              [SetDirServoAngle 0, Forward SPEED_APPROACH_K, Sleep 0.05]
                       else Next (s\<lparr>last_rssi := rssi\<rparr>)
                              [SetDirServoAngle 20, Forward SPEED_APPROACH_K, Sleep 0.05])
             | FINISH \<Rightarrow> Break s [Stop, SetDirServoAngle 0]
             | VERIFY \<Rightarrow> Next (s\<lparr>last_rssi := rssi\<rparr>) [Sleep 0.05])"

subsection \<open>The loop body of \<^verbatim>\<open>test24.py\<close>\<close>

text \<open>Step 3 of the loop: the soft safety and the steering from the vision scores.\<close>

definition vision_safety :: "scores option \<Rightarrow> kctrl \<Rightarrow> kctrl \<times> action list" where
  "vision_safety sc s =
     (case sc of
        None \<Rightarrow> (s, [])
      | Some v \<Rightarrow>
          if state_k s = SEARCH \<or> state_k s = APPROACH then
            (if free_ahead v < VISION_FREE_AHEAD_MIN \<or> window_risk v
             then (s\<lparr>state_k := AVOID\<rparr>, [])
             else
               let bias = free_right v - free_left v;
                   steer = VISION_STEER_GAIN * bias * of_int MAX_STEER_ANGLE;
                   steer = py_int (clamp steer (of_int (- MAX_STEER_ANGLE)) (of_int MAX_STEER_ANGLE))
               in (s, [SetDirServoAngle steer]))
          else (s, []))"

definition tick24 :: "kinput \<Rightarrow> kctrl \<Rightarrow> kctrl loop_result" where
  "tick24 inp s =
     (case smooth (raw_rssi inp) s of
        Inl e \<Rightarrow> Raised e
      | Inr (rssi, s) \<Rightarrow>
          let s = (if close_k (range_cm inp) \<and> state_k s \<noteq> FINISH
                   then s\<lparr>state_k := AVOID\<rparr> else s);
              (s, vis_acts) = vision_safety (vision inp) s
          in case state_k s of
               AVOID \<Rightarrow>
                 (let (direction, scan_acts) =
                        (case vision inp of
                           Some v \<Rightarrow> (if free_left v > free_right v then -1 else 1, [])
                         | None \<Rightarrow>
                             (scan_direction (scan_left inp) (scan_right inp), scan_actions24));
                      turn_angle = direction * MAX_STEER_ANGLE
                  in Next (s\<lparr>last_rssi := rssi, state_k := SEARCH\<rparr>)
                       (vis_acts @ scan_acts @
                        [SetDirServoAngle 0, Backward SPEED_SEARCH_K, Sleep 0.8,
                         SetDirServoAngle turn_angle, Forward SPEED_SEARCH_K, Sleep 0.6,
                         Sleep 0.05]))
             | SEARCH \<Rightarrow>
                 (if rssi > APPROACH_THRESHOLD_K
                  then Next (s\<lparr>state_k := APPROACH\<rparr>) (vis_acts @ [SetDirServoAngle 0])
                  else Next ((spiral_step s)\<lparr>last_rssi := rssi\<rparr>)
                         (vis_acts @
                          [Forward SPEED_SEARCH_K, SetDirServoAngle (py_int (spiral_angle s)),
                           Sleep 0.05]))
             | APPROACH \<Rightarrow>
                 (if rssi \<ge> TARGET_RSSI_K
                  then Next (s\<lparr>state_k := FINISH\<rparr>) vis_acts
                  else
                    let delta = rssi - last_rssi s
                    in if delta \<ge> 0
                       then Next (s\<lparr>last_rssi := rssi\<rparr>)
                              (vis_acts @ [Forward SPEED_APPROACH_K, Sleep 0.05])
                       else Next (s\<lparr>last_rssi := rssi\<rparr>)
                              (vis_acts @
                               [SetDirServoAngle
                                  (py_int (clamp 20 (of_int (- MAX_STEER_ANGLE))
                                             (of_int MAX_STEER_ANGLE))),
                                Forward SPEED_APPROACH_K, Sleep 0.05]))
             | FINISH \<Rightarrow> Break s (vis_acts @ [Stop, SetDirServoAngle 0])
             | VERIFY \<Rightarrow> Next (s\<lparr>last_rssi := rssi\<rparr>) (vis_acts @ [Sleep 0.05]))"

subsection \<open>The loop body of \<^verbatim>\<open>test25.py\<close>\<close>

text \<open>Step 2 of the loop: the debounced obstacle filter, skipped in FINISH and VERIFY.\<close>

definition obstacle_filter25 :: "real option \<Rightarrow> ctrl25 \<Rightarrow> ctrl25" where
  "obstacle_filter25 dist_cm s =
     (if state_k s \<noteq> FINISH \<and> state_k s \<noteq> VERIFY then
        (let s = (if close_k dist_cm
                  then s\<lparr>obstacle_counter_k := obstacle_counter_k s + 1\<rparr>
                  else s\<lparr>obstacle_counter_k := 0\<rparr>)
         in if obstacle_counter_k s \<ge> OBSTACLE_CONFIRM_COUNT
            then s\<lparr>state_k := AVOID, obstacle_counter_k := 0\<rparr>
            else s)
      else s)"

text \<open>Step 3 of the loop: the branch of the state, with the filtered value of this iteration.\<close>

definition state_logic25 :: "kinput \<Rightarrow> real \<Rightarrow> ctrl25 \<Rightarrow> ctrl25 loop_result" where
  "state_logic25 inp rssi s =
     (case state_k s of
        AVOID \<Rightarrow>
          (let direction = scan_direction (scan_left inp) (scan_right inp);
               turn = direction * MAX_STEER_ANGLE
           in Next (s\<lparr>last_rssi := rssi, state_k := SEARCH\<rparr>)
                (scan_actions25 @
                 [SetDirServoAngle 0, Backward SPEED_SEARCH_K, Sleep 0.8,
                  SetDirServoAngle turn, Forward SPEED_SEARCH_K, Sleep 0.5, Sleep 0.01]))
      | SEARCH \<Rightarrow>
          (if rssi > APPROACH_THRESHOLD_K
           then Next (s\<lparr>state_k := APPROACH\<rparr>) [SetDirServoAngle 0]
           else Next ((spiral_step s)\<lparr>last_rssi := rssi\<rparr>)
                  [Forward SPEED_SEARCH_K, SetDirServoAngle (py_int (spiral_angle s)),
                   Sleep 0.01])
      | APPROACH \<Rightarrow>
          (if rssi \<ge> TARGET_RSSI_K
           then Next (s\<lparr>state_k := VERIFY, verify_start_time := clock inp, verify_hits_k := 0\<rparr>)
                  [Stop, SetDirServoAngle 0]
           else
             let delta = rssi - last_rssi s
             in if delta \<ge> 0
                then Next (s\<lparr>last_rssi := rssi\<rparr>)
                       [SetDirServoAngle 0, Forward SPEED_APPROACH_K, Sleep 0.01]
                else Next (s\<lparr>last_rssi := rssi\<rparr>)
                       [SetDirServoAngle 20, Forward SPEED_APPROACH_K, Sleep 0.01])
      | VERIFY \<Rightarrow>
          (let elapsed = clock inp - verify_start_time s;
               s = (if rssi \<ge> TARGET_RSSI_K
                    then s\<lparr>verify_hits_k := verify_hits_k s + 1\<rparr> else s)
           in if elapsed > VERIFY_DURATION
              then (if verify_hits_k s \<ge> VERIFY_REQUIRED_HITS_K
                    then Next (s\<lparr>state_k := FINISH, last_rssi := rssi\<rparr>) [Sleep 0.01]
                    else Next (s\<lparr>state_k := APPROACH, last_rssi := rssi\<rparr>)
                           [Backward SPEED_APPROACH_K, Sleep 1.0, Sleep 0.01])
              else Next (s\<lparr>last_rssi := rssi\<rparr>) [Sleep 0.01])
      | FINISH \<Rightarrow> Break s [Stop])"

definition tick25 :: "kinput \<Rightarrow> ctrl25 \<Rightarrow> ctrl25 loop_result" where
  "tick25 inp s =
     (case smooth (raw_rssi inp) s of
        Inl e \<Rightarrow> Raised e
      | Inr (rssi, s) \<Rightarrow> state_logic25 inp rssi (obstacle_filter25 (range_cm inp) s))"

subsection \<open>Runs of the loops\<close>

text \<open>
  All actions a run emits over a finite list of iterations' inputs, with the \<^verbatim>\<open>finally\<close>
  block's when the loop is left, and the controller after each iteration.
\<close>

definition finally_actions :: "action list" where
  "finally_actions = [Stop, SetDirServoAngle 0] @ center_head"

fun emitted :: "(kinput \<Rightarrow> 's \<Rightarrow> 's loop_result) \<Rightarrow> 's \<Rightarrow> kinput list \<Rightarrow> action list" where
  "emitted tick s [] = []"
| "emitted tick s (inp # inps) =
     (case tick inp s of
        Next s' acts \<Rightarrow> acts @ emitted tick s' inps
      | Break s' acts \<Rightarrow> acts @ finally_actions
      | Raised e \<Rightarrow> finally_actions)"

fun run_k :: "(kinput \<Rightarrow> 's \<Rightarrow> 's loop_result) \<Rightarrow> 's \<Rightarrow> kinput list \<Rightarrow> 's" where
  "run_k tick s [] = s"
| "run_k tick s (inp # inps) =
     (case tick inp s of
        Next s' acts \<Rightarrow> run_k tick s' inps
      | Break s' acts \<Rightarrow> s'
      | Raised e \<Rightarrow> s)"

fun steer_angles :: "action list \<Rightarrow> int list" where
  "steer_angles [] = []"
| "steer_angles (SetDirServoAngle a # acts) = a # steer_angles acts"
| "steer_angles (other # acts) = steer_angles acts"


section \<open>Double-precision arithmetic\<close>

text \<open>
  Python floats are IEEE 754 binary64 numbers: every arithmetic operation returns the exact
  result rounded to the nearest number with a 53-bit significand, ties going to the even
  significand. \<open>fl\<close> is that rounding: \<open>binade v\<close> is the exponent \<open>e\<close> with
  \<open>2\<^sup>e \<le> |v| < 2\<^sup>e\<^sup>+\<^sup>1\<close>, \<open>ulp v = 2\<^sup>e\<^sup>-\<^sup>5\<^sup>2\<close> the spacing of the doubles there, and \<open>fl v\<close> the
  multiple of \<open>ulp v\<close> nearest to \<open>v\<close>. The exponent is not bounded here, so \<open>fl\<close> agrees
  with binary64 wherever no result overflows or falls into the subnormal range (magnitudes
  between \<open>2\<^sup>-\<^sup>1\<^sup>0\<^sup>2\<^sup>2\<close> and \<open>2\<^sup>1\<^sup>0\<^sup>2\<^sup>4\<close>, or zero); \<open>within_exponent_range\<close> keeps estimates and
  measurements far inside that range. The exponent is written with the logarithm; lemma
  \<open>fl_at\<close> below computes \<open>fl\<close> at a concrete value from the two powers of two around it.
\<close>

definition round_half_even :: "real \<Rightarrow> int" where
  "round_half_even y =
     (let n = \<lfloor>y\<rfloor>; r = y - of_int n
      in if r < 1 / 2 then n else if r > 1 / 2 then n + 1
         else if even n then n else n + 1)"

definition binade :: "real \<Rightarrow> int" where
  "binade v = \<lfloor>log 2 \<bar>v\<bar>\<rfloor>"

definition ulp :: "real \<Rightarrow> real" where
  "ulp v = 2 powi (binade v - 52)"

definition fl :: "real \<Rightarrow> real" where
  "fl v = (if v = 0 then 0 else ulp v * of_int (round_half_even (v / ulp v)))"







section \<open>Scenarios and predicates of the statements\<close>

text \<open>
  The scenarios of the specification's testable properties. The verification scenario is a
  fixed sequence of 30 (clock, sample) pairs of which exactly 5 reach the target, checked
  with \<open>VERIFY_TOTAL_CHECKS = 30\<close> and \<open>VERIFY_REQUIRED_HITS = 4\<close>; the end-to-end scenario feeds
  eight burst estimates with \<open>APPROACH_THRESHOLD = -55\<close> and \<open>TARGET_RSSI = -46\<close>.
\<close>

definition verify_scenario_config :: config where
  "verify_scenario_config =
     final_version_config\<lparr>VERIFY_TOTAL_CHECKS := 30, VERIFY_REQUIRED_HITS := 4\<rparr>"

definition verify_scenario :: "(real \<times> real) list" where
  "verify_scenario =
     [(0, -60), (1, -45), (2, -60), (3, -60), (4, -60), (5, -60),
      (6, -60), (7, -60), (8, -48.5), (9, -60), (10, -60), (11, -60),
      (12, -60), (13, -60), (14, -47), (15, -60), (16, -49), (17, -60),
      (18, -60), (19, -60), (20, -60), (21, -44), (22, -60), (23, -60),
      (24, -60), (25, -60), (26, -60), (27, -48), (28, -60), (29, -60)]"

definition end_to_end_config :: config where
  "end_to_end_config = final_version_config\<lparr>APPROACH_THRESHOLD := -55, TARGET_RSSI := -46\<rparr>"

definition end_to_end_signal :: "real list" where
  "end_to_end_signal = [-70, -68, -60, -52, -44, -44, -44, -44]"


text \<open>
  The variance recursion has the fixed point \<open>P\<^sup>2 + Q P = Q R\<close>; at or above it a step does
  not raise the variance.
\<close>

definition steady :: "kalman \<Rightarrow> bool" where
  "steady f \<longleftrightarrow> kf_R f > 0 \<and> kf_Q f > 0 \<and> kf_P f > 0
      \<and> kf_Q f * kf_R f \<le> kf_P f * kf_P f + kf_Q f * kf_P f"


text \<open>
  The mean of the sorted readings with \<open>k\<close> readings dropped at each end, and the valid
  readings of a burst.
\<close>

definition trimmed_mean :: "nat \<Rightarrow> real list \<Rightarrow> real" where
  "trimmed_mean k xs = mean (drop k (take (length xs - k) (sort xs)))"

definition valid_readings :: "real option list \<Rightarrow> real list" where
  "valid_readings reads = List.map_filter (\<lambda>v. v) reads"

text \<open>Inputs of the Kalman variants with a raw reading (or none), nothing in range and no
  vision.\<close>

definition reading_only :: "real option \<Rightarrow> kinput" where
  "reading_only raw =
     \<lparr> raw_rssi = raw, range_cm = None, scan_left = None, scan_right = None,
       vision = None, clock = 0 \<rparr>"


text \<open>
  The range of the steering servo commands, and the range the spiral angle stays in: it
  starts at \<open>-MAX_STEER_ANGLE\<close>, grows by 0.05 while negative and is reset once it is not.
\<close>

definition steer_ok :: "int \<Rightarrow> bool" where
  "steer_ok a \<longleftrightarrow> - MAX_STEER_ANGLE \<le> a \<and> a \<le> MAX_STEER_ANGLE"

definition spiral_ok :: "'a kctrl_scheme \<Rightarrow> bool" where
  "spiral_ok s \<longleftrightarrow> of_int (- MAX_STEER_ANGLE) \<le> spiral_angle s \<and> spiral_angle s < 0.05"


text \<open>What one iteration has to keep: the spiral angle in its range and the steering
  commands within the limit.\<close>

definition tick_ok :: "'a kctrl_scheme loop_result \<Rightarrow> bool" where
  "tick_ok r =
     (case r of
        Next s' acts \<Rightarrow> spiral_ok s' \<and> list_all steer_ok (steer_angles acts)
      | Break s' acts \<Rightarrow> list_all steer_ok (steer_angles acts)
      | Raised e \<Rightarrow> True)"

text \<open>Two iterations that steer from vision, spiral, and avoid an obstacle in range.\<close>

definition steer_scenario :: "kinput list" where
  "steer_scenario =
     [\<lparr> raw_rssi = Some (-60), range_cm = Some 100, scan_left = None, scan_right = None,
        vision = Some \<lparr> free_left = 0.1, free_right = 0.9, free_ahead = 0.8,
                        window_risk = False \<rparr>,
        clock = 0 \<rparr>,
      \<lparr> raw_rssi = Some (-60), range_cm = Some 10, scan_left = Some 50, scan_right = Some 20,
        vision = None, clock = 0 \<rparr>]"

text \<open>
  Inputs of \<^verbatim>\<open>final_version.py\<close>'s loop: a burst estimate with the rangefinder value of the
  iteration. In the end-to-end scenario nothing is in range; in the second scenario the
  signal is strong from the start and an obstacle stands at 10 cm during verification.
\<close>

definition tick_of :: "real \<Rightarrow> real option \<Rightarrow> tick_input" where
  "tick_of curr_rssi dist_cm = \<lparr> in_rssi = Some curr_rssi, in_dist = dist_cm, in_now = 0 \<rparr>"

definition end_to_end_inputs :: "tick_input list" where
  "end_to_end_inputs = map (\<lambda>v. tick_of v None) end_to_end_signal"

definition obstacle_in_verify_inputs :: "tick_input list" where
  "obstacle_in_verify_inputs =
     [tick_of (-40) (Some 100), tick_of (-40) (Some 100),
      tick_of (-40) (Some 10), tick_of (-40) (Some 10)]"

definition clear_in_verify_inputs :: "tick_input list" where
  "clear_in_verify_inputs =
     [tick_of (-40) (Some 100), tick_of (-40) (Some 100),
      tick_of (-40) (Some 10), tick_of (-40) (Some 100)]"


text \<open>An input of \<^verbatim>\<open>test25.py\<close>'s loop with no signal reading and an obstacle at 10 cm.\<close>

definition blocked_input :: kinput where
  "blocked_input =
     \<lparr> raw_rssi = None, range_cm = Some 10, scan_left = Some 50, scan_right = Some 20,
       vision = None, clock = 0 \<rparr>"


section \<open>The obstacle monitor of \<^verbatim>\<open>final_version.py\<close>\<close>

lemma check_obstacle_close:
  "close_reading cfg d \<Longrightarrow>
   check_obstacle cfg d s =
     (2 \<le> obstacle_counter s + 1, s\<lparr>obstacle_counter := obstacle_counter s + 1\<rparr>)"
  by (auto simp: check_obstacle_def close_reading_def Let_def split: option.splits)

lemma check_obstacle_far:
  "\<not> close_reading cfg d \<Longrightarrow>
   check_obstacle cfg d s = (False, s\<lparr>obstacle_counter := 0\<rparr>)"
  by (auto simp: check_obstacle_def close_reading_def Let_def split: option.splits)

lemma observe_ctrl_snoc:
  "observe_ctrl cfg s (ds @ [d]) = snd (check_obstacle cfg d (observe_ctrl cfg s ds))"
  by (induction ds arbitrary: s) simp_all

lemma observe_all_snoc:
  "observe_all cfg s (ds @ [d]) =
     observe_all cfg s ds @ [fst (check_obstacle cfg d (observe_ctrl cfg s ds))]"
  by (induction ds arbitrary: s) (simp_all add: Let_def split: prod.splits)

lemma observe_all_length: "length (observe_all cfg s ds) = length ds"
  by (induction ds arbitrary: s) (simp_all add: Let_def split: prod.splits)

lemma observe_ctrl_counter:
  "obstacle_counter s = 0 \<Longrightarrow>
   obstacle_counter (observe_ctrl cfg s ds) =
     int (length (takeWhile (close_reading cfg) (rev ds)))"
proof (induction ds rule: rev_induct)
  case Nil
  then show ?case by simp
next
  case (snoc d ds)
  show ?case
  proof (cases "close_reading cfg d")
    case True
    then show ?thesis
      using snoc by (simp add: observe_ctrl_snoc check_obstacle_close)
  next
    case False
    then show ?thesis
      by (simp add: observe_ctrl_snoc check_obstacle_far)
  qed
qed

lemma observe_all_nth:
  assumes "obstacle_counter s = 0" "k < length ds"
  shows "observe_all cfg s ds ! k =
           (2 \<le> length (takeWhile (close_reading cfg) (rev (take (Suc k) ds))))"
  using assms(2)
proof (induction ds rule: rev_induct)
  case Nil
  then show ?case by simp
next
  case (snoc d ds)
  show ?case
  proof (cases "k < length ds")
    case True
    then show ?thesis
      using snoc.IH by (simp add: observe_all_snoc nth_append observe_all_length)
  next
    case False
    with snoc.prems have k: "k = length ds" by simp
    have c: "obstacle_counter (observe_ctrl cfg s ds) =
               int (length (takeWhile (close_reading cfg) (rev ds)))"
      using assms(1) by (rule observe_ctrl_counter)
    show ?thesis
    proof (cases "close_reading cfg d")
      case True
      then show ?thesis
        using c k by (simp add: observe_all_snoc nth_append observe_all_length check_obstacle_close)
    next
      case False
      then show ?thesis
        using k by (simp add: observe_all_snoc nth_append observe_all_length check_obstacle_far)
    qed
  qed
qed

text \<open>
  Claim C4. Starting from a fresh counter, the flag \<^verbatim>\<open>check_obstacle\<close> returns on a reading is
  true exactly when the run of consecutive readings with \<open>0 < distance < OBSTACLE_DIST_CM\<close>
  that ends at this reading has length at least 2, the debounce threshold of this variant.
  In particular one close reading followed by readings that are not close never yields true,
  and two consecutive close readings yield true on the second, whatever came before.
\<close>

theorem obstacle_monitor_debounce:
  assumes "obstacle_counter s = 0"
  shows "length (observe_all cfg s ds) = length ds
       \<and> (\<forall>k<length ds. observe_all cfg s ds ! k =
             (2 \<le> length (takeWhile (close_reading cfg) (rev (take (Suc k) ds)))))
       \<and> (close_reading cfg d \<and> (\<forall>e\<in>set far. \<not> close_reading cfg e) \<longrightarrow>
             (\<forall>flag\<in>set (observe_all cfg s (d # far)). \<not> flag))
       \<and> (close_reading cfg d1 \<and> close_reading cfg d2 \<longrightarrow>
             last (observe_all cfg s (ds @ [d1, d2])))"
proof (intro conjI impI)
  show "length (observe_all cfg s ds) = length ds"
    by (rule observe_all_length)
  show "\<forall>k<length ds. observe_all cfg s ds ! k =
          (2 \<le> length (takeWhile (close_reading cfg) (rev (take (Suc k) ds))))"
    using assms by (simp add: observe_all_nth)
next
  assume a: "close_reading cfg d \<and> (\<forall>e\<in>set far. \<not> close_reading cfg e)"
  have far: "\<And>s'. \<forall>flag\<in>set (observe_all cfg s' far). \<not> flag"
    using a by (induction far) (simp_all add: check_obstacle_far)
  show "\<forall>flag\<in>set (observe_all cfg s (d # far)). \<not> flag"
    using a assms far by (simp add: check_obstacle_close)
next
  assume a: "close_reading cfg d1 \<and> close_reading cfg d2"
  have "ds @ [d1, d2] = (ds @ [d1]) @ [d2]" by simp
  moreover have "0 \<le> obstacle_counter (observe_ctrl cfg s ds)"
    using assms by (simp add: observe_ctrl_counter)
  ultimately show "last (observe_all cfg s (ds @ [d1, d2]))"
    using a by (simp only: observe_all_snoc observe_ctrl_snoc last_snoc)
               (simp add: check_obstacle_close)
qed

theorem obstacle_monitor_debounce_witness:
  "obstacle_counter (ctrl_init 0) = 0
   \<and> close_reading final_version_config (Some 15)
   \<and> \<not> close_reading final_version_config (Some 40)
   \<and> \<not> close_reading final_version_config None
   \<and> \<not> close_reading final_version_config (Some 25)
   \<and> observe_all final_version_config (ctrl_init 0) [Some 15, Some 40, None, Some 25]
       = [False, False, False, False]
   \<and> observe_all final_version_config (ctrl_init 0) [Some 40, Some 15, Some 24]
       = [False, False, True]"
proof -
  have h: "obstacle_counter (ctrl_init 0) = 0" by (simp add: ctrl_init_def)
  have c: "close_reading final_version_config (Some 15)"
          "close_reading final_version_config (Some 24)"
          "\<forall>e\<in>set [Some 40, None, Some 25]. \<not> close_reading final_version_config e"
    by (simp_all add: close_reading_def final_version_config_def)
  note t1 = obstacle_monitor_debounce [OF h, of final_version_config "[]" "Some 15"
      "[Some 40, None, Some 25]" "Some 15" "Some 24"]
  note t2 = obstacle_monitor_debounce [OF h, of final_version_config "[Some 40]" "Some 15"
      "[Some 40, None, Some 25]" "Some 15" "Some 24"]
  have "observe_all final_version_config (ctrl_init 0) [Some 15, Some 40, None, Some 25]
       = [False, False, False, False]"
    by (simp add: check_obstacle_def final_version_config_def ctrl_init_def)
  moreover have "observe_all final_version_config (ctrl_init 0) [Some 40, Some 15, Some 24]
       = [False, False, True]"
    using t2 c 
    by (simp add: check_obstacle_def final_version_config_def ctrl_init_def)
  ultimately show ?thesis using h c t1 by simp
qed

text \<open>
  Claim C5, the statement as written fails: a reading of 0, or an arbitrarily large one, takes
  the else branch of the monitor and resets the counter, so a close reading before it is
  forgotten.
\<close>

theorem zero_distance_resets_counterexample:
  "obstacle_counter (observe_ctrl final_version_config (ctrl_init 0) [Some 15]) = 1
   \<and> obstacle_counter (observe_ctrl final_version_config (ctrl_init 0) [Some 15, Some 0]) = 0
   \<and> obstacle_counter (observe_ctrl final_version_config (ctrl_init 0) [Some 15, Some 100000]) = 0
   \<and> observe_all final_version_config (ctrl_init 0) [Some 15, Some 0, Some 15]
       = [False, False, False]"
  by (simp add: check_obstacle_def final_version_config_def ctrl_init_def)

text \<open>
  Claim C5 as amended. A missing reading, a reading of 0, a negative reading and any reading
  at or above \<open>OBSTACLE_DIST_CM\<close> (there is no upper ceiling) is never counted as close: the
  counter is not incremented, it is reset to 0, and the monitor returns false.
\<close>

theorem no_reading_resets_counter:
  assumes "dist_cm = None \<or> dist_cm = Some 0
           \<or> (\<exists>v. dist_cm = Some v \<and> (v < 0 \<or> OBSTACLE_DIST_CM cfg \<le> v))"
  shows "check_obstacle cfg dist_cm s = (False, s\<lparr>obstacle_counter := 0\<rparr>)"
proof -
  have "\<not> close_reading cfg dist_cm"
    using assms by (auto simp: close_reading_def)
  then show ?thesis by (rule check_obstacle_far)
qed

theorem no_reading_resets_counter_witness:
  "check_obstacle final_version_config (Some 0) ((ctrl_init 0)\<lparr>obstacle_counter := 1\<rparr>)
     = (False, (ctrl_init 0)\<lparr>obstacle_counter := 0\<rparr>)
   \<and> check_obstacle final_version_config (Some 100000) ((ctrl_init 0)\<lparr>obstacle_counter := 1\<rparr>)
     = (False, (ctrl_init 0)\<lparr>obstacle_counter := 0\<rparr>)"
  using no_reading_resets_counter [of "Some 0" final_version_config "(ctrl_init 0)\<lparr>obstacle_counter := 1\<rparr>"]
        no_reading_resets_counter [of "Some 100000" final_version_config "(ctrl_init 0)\<lparr>obstacle_counter := 1\<rparr>"]
  by (simp add: final_version_config_def)

section \<open>The verification gate of \<^verbatim>\<open>final_version.py\<close>\<close>

lemma handle_verify_counts:
  "verify_counter (fst (handle_verify cfg now x s)) = verify_counter s + 1
   \<and> verify_hits (fst (handle_verify cfg now x s)) =
       verify_hits s + (if x \<ge> TARGET_RSSI cfg then 1 else 0)"
  by (simp add: handle_verify_def Let_def)

lemma handle_verify_early:
  "verify_counter s + 1 < VERIFY_TOTAL_CHECKS cfg \<Longrightarrow>
   state (fst (handle_verify cfg now x s)) = state s"
  by (simp add: handle_verify_def Let_def)

lemma handle_verify_last:
  "verify_counter s + 1 \<ge> VERIFY_TOTAL_CHECKS cfg \<Longrightarrow>
   state (fst (handle_verify cfg now x s)) =
     (if verify_hits s + (if x \<ge> TARGET_RSSI cfg then 1 else 0) \<ge> VERIFY_REQUIRED_HITS cfg
      then FINISH else SEARCH)"
  by (simp add: handle_verify_def Let_def)

lemma verify_all_snoc:
  "verify_all cfg s (xs @ [(now, x)]) = fst (handle_verify cfg now x (verify_all cfg s xs))"
  by (induction xs arbitrary: s) auto

lemma hits_of_snoc:
  "hits_of cfg (xs @ [(now, x)]) = hits_of cfg xs + (if x \<ge> TARGET_RSSI cfg then 1 else 0)"
  by (simp add: hits_of_def)

lemma verify_all_before_total:
  assumes "verify_counter s = 0" "verify_hits s = 0"
      and "int (length xs) < VERIFY_TOTAL_CHECKS cfg"
  shows "state (verify_all cfg s xs) = state s
       \<and> verify_counter (verify_all cfg s xs) = int (length xs)
       \<and> verify_hits (verify_all cfg s xs) = int (hits_of cfg xs)"
  using assms(3)
proof (induction xs rule: rev_induct)
  case Nil
  then show ?case using assms by (simp add: hits_of_def)
next
  case (snoc a xs)
  obtain now x where a: "a = (now, x)" by (cases a)
  from snoc.prems have lt: "int (length xs) < VERIFY_TOTAL_CHECKS cfg" by simp
  note ih = snoc.IH [OF lt]
  have "verify_counter (verify_all cfg s xs) + 1 < VERIFY_TOTAL_CHECKS cfg"
    using ih snoc.prems by simp
  then show ?case
    using ih by (simp add: a verify_all_snoc hits_of_snoc handle_verify_counts handle_verify_early)
qed

text \<open>
  Claim C1. Every call of \<^verbatim>\<open>handle_verify\<close> increments \<open>verify_counter\<close> and increments
  \<open>verify_hits\<close> exactly when the sample reaches \<open>TARGET_RSSI\<close>. Entered with both counters at
  zero (as \<^verbatim>\<open>handle_approach\<close> leaves them), the state stays VERIFY on every call before the
  \<open>VERIFY_TOTAL_CHECKS\<close>-th, and on that call it becomes FINISH if the hits reach
  \<open>VERIFY_REQUIRED_HITS\<close> and SEARCH otherwise. For the scenario of 30 samples with exactly
  5 hits, 30 checks and 4 required hits this gives VERIFY after 29 calls and FINISH after 30.
\<close>

theorem verification_gate:
  assumes "state s = VERIFY" "verify_counter s = 0" "verify_hits s = 0"
      and "0 < VERIFY_TOTAL_CHECKS cfg"
      and "int (length xs) = VERIFY_TOTAL_CHECKS cfg"
  shows "(\<forall>now x s'. verify_counter (fst (handle_verify cfg now x s')) = verify_counter s' + 1
            \<and> verify_hits (fst (handle_verify cfg now x s')) =
                verify_hits s' + (if x \<ge> TARGET_RSSI cfg then 1 else 0))
       \<and> (\<forall>k<length xs. state (verify_all cfg s (take k xs)) = VERIFY)
       \<and> verify_counter (verify_all cfg s xs) = VERIFY_TOTAL_CHECKS cfg
       \<and> verify_hits (verify_all cfg s xs) = int (hits_of cfg xs)
       \<and> state (verify_all cfg s xs) =
           (if int (hits_of cfg xs) \<ge> VERIFY_REQUIRED_HITS cfg then FINISH else SEARCH)"
proof (intro conjI allI impI)
  fix now x s'
  show "verify_counter (fst (handle_verify cfg now x s')) = verify_counter s' + 1"
    by (simp add: handle_verify_counts)
  show "verify_hits (fst (handle_verify cfg now x s')) =
          verify_hits s' + (if x \<ge> TARGET_RSSI cfg then 1 else 0)"
    by (simp add: handle_verify_counts)
next
  fix k assume "k < length xs"
  then have "int (length (take k xs)) < VERIFY_TOTAL_CHECKS cfg"
    using assms(5) by simp
  from verify_all_before_total [OF assms(2,3) this] assms(1)
  show "state (verify_all cfg s (take k xs)) = VERIFY" by simp
next
  from assms(4,5) have "xs \<noteq> []" by auto
  then obtain ys a where xs: "xs = ys @ [a]" by (metis rev_exhaust)
  obtain now x where a: "a = (now, x)" by (cases a)
  have "int (length ys) < VERIFY_TOTAL_CHECKS cfg"
    using assms(5) xs by simp
  note pre = verify_all_before_total [OF assms(2,3) this]
  have last: "verify_counter (verify_all cfg s ys) + 1 \<ge> VERIFY_TOTAL_CHECKS cfg"
    using pre assms(5) xs by simp
  show "verify_counter (verify_all cfg s xs) = VERIFY_TOTAL_CHECKS cfg"
    using pre assms(5) by (simp add: xs a verify_all_snoc handle_verify_counts)
  show "verify_hits (verify_all cfg s xs) = int (hits_of cfg xs)"
    using pre by (simp add: xs a verify_all_snoc handle_verify_counts hits_of_snoc)
  show "state (verify_all cfg s xs) =
           (if int (hits_of cfg xs) \<ge> VERIFY_REQUIRED_HITS cfg then FINISH else SEARCH)"
    using pre by (simp add: xs a verify_all_snoc hits_of_snoc handle_verify_last [OF last])
qed

theorem verification_gate_witness:
  "state ((ctrl_init 0)\<lparr>state := VERIFY\<rparr>) = VERIFY
   \<and> int (length verify_scenario) = VERIFY_TOTAL_CHECKS verify_scenario_config
   \<and> VERIFY_TOTAL_CHECKS verify_scenario_config = 30
   \<and> VERIFY_REQUIRED_HITS verify_scenario_config = 4
   \<and> hits_of verify_scenario_config verify_scenario = 5
   \<and> state (verify_all verify_scenario_config ((ctrl_init 0)\<lparr>state := VERIFY\<rparr>)
              (take 29 verify_scenario)) = VERIFY
   \<and> state (verify_all verify_scenario_config ((ctrl_init 0)\<lparr>state := VERIFY\<rparr>)
              verify_scenario) = FINISH"
proof -
  let ?s = "(ctrl_init 0)\<lparr>state := VERIFY\<rparr>"
  let ?cfg = verify_scenario_config
  have h1: "state ?s = VERIFY" and h2: "verify_counter ?s = 0" and h3: "verify_hits ?s = 0"
    by (simp_all add: ctrl_init_def)
  have h4: "0 < VERIFY_TOTAL_CHECKS ?cfg"
    and c30: "VERIFY_TOTAL_CHECKS ?cfg = 30" and r4: "VERIFY_REQUIRED_HITS ?cfg = 4"
    by (simp_all add: verify_scenario_config_def final_version_config_def)
  have h5: "int (length verify_scenario) = VERIFY_TOTAL_CHECKS ?cfg"
    by (simp add: c30 verify_scenario_def)
  have hits: "hits_of ?cfg verify_scenario = 5"
    by (simp add: hits_of_def verify_scenario_def verify_scenario_config_def
        final_version_config_def)
  note gate = verification_gate [OF h1 h2 h3 h4 h5]
  have len: "29 < length verify_scenario" by (simp add: verify_scenario_def)
  from gate len have early: "state (verify_all ?cfg ?s (take 29 verify_scenario)) = VERIFY"
    by blast
  from gate hits r4 have final: "state (verify_all ?cfg ?s verify_scenario) = FINISH"
    by simp
  show ?thesis using h1 h5 c30 r4 hits early final by simp
qed

section \<open>The Kalman filter\<close>

lemma kf_filter_some:
  assumes "kf_P f + kf_Q f + kf_R f \<noteq> 0"
  shows "kf_filter (Some z) f =
           Inr (kf_x f + (kf_P f + kf_Q f) / (kf_P f + kf_Q f + kf_R f) * (z - kf_x f),
                f\<lparr>kf_x := kf_x f + (kf_P f + kf_Q f) / (kf_P f + kf_Q f + kf_R f) * (z - kf_x f),
                  kf_P := (1 - (kf_P f + kf_Q f) / (kf_P f + kf_Q f + kf_R f)) * (kf_P f + kf_Q f)\<rparr>)"
  using assms by (simp add: kf_filter_def Let_def)

lemma blend_between:
  fixes a z K :: real
  assumes "0 < K" "K < 1" "z \<noteq> a"
  shows "a < a + K * (z - a) \<and> a + K * (z - a) < z \<or> z < a + K * (z - a) \<and> a + K * (z - a) < a"
proof (cases "a < z")
  case True
  then have d: "0 < z - a" by simp
  have "0 < K * (z - a)" using assms(1) d by simp
  moreover have "K * (z - a) < 1 * (z - a)" using assms(2) d by (intro mult_strict_right_mono)
  ultimately show ?thesis by simp
next
  case False
  with assms(3) have d: "z - a < 0" by simp
  have "K * (z - a) < 0" using assms(1) d by (simp add: mult_pos_neg)
  moreover have "1 * (z - a) < K * (z - a)" using assms(2) d by (intro mult_strict_right_mono_neg)
  ultimately show ?thesis by simp
qed

text \<open>
  In exact arithmetic the gain lies strictly between 0 and 1 whenever \<open>R\<close>, \<open>Q\<close> and \<open>P\<close> are
  positive, and the new estimate lies strictly between the old one and the measurement.
\<close>

lemma estimate_between_exact:
  assumes "kf_R f > 0" "kf_Q f > 0" "kf_P f > 0" "z \<noteq> kf_x f"
  shows "\<exists>v f'. kf_filter (Some z) f = Inr (v, f') \<and> kf_x f' = v
           \<and> (kf_x f < v \<and> v < z \<or> z < v \<and> v < kf_x f)"
proof -
  let ?p = "kf_P f + kf_Q f"
  let ?K = "?p / (?p + kf_R f)"
  have p: "0 < ?p" and pr: "0 < ?p + kf_R f" using assms by simp_all
  have K: "0 < ?K" "?K < 1" using p pr assms(1) by simp_all
  have nz: "kf_P f + kf_Q f + kf_R f \<noteq> 0" using pr by simp
  show ?thesis
    using blend_between [OF K assms(4)] by (simp add: kf_filter_some [OF nz])
qed

lemma variance_step:
  fixes P Q R :: real
  assumes R: "0 < R" and Q: "0 < Q" and P: "0 < P" and g: "Q * R \<le> P * P + Q * P"
  defines "P' \<equiv> (1 - (P + Q) / (P + Q + R)) * (P + Q)"
  shows "0 < P' \<and> P' \<le> P \<and> Q * R \<le> P' * P' + Q * P'"
proof -
  define s where "s = P + Q + R"
  define a where "a = (P + Q) * R"
  have s: "0 < s" using R Q P by (simp add: s_def)
  have a: "0 < a" using R Q P by (simp add: a_def)
  have P'_eq: "P' = a / s"
  proof -
    have "1 - (P + Q) / s = R / s"
      using s by (simp add: field_simps s_def)
    then show ?thesis by (simp add: P'_def a_def s_def)
  qed
  have pos: "0 < P'" using a s by (simp add: P'_eq)
  have le: "P' \<le> P"
  proof -
    have "a \<le> P * s" using g by (simp add: a_def s_def algebra_simps)
    then show ?thesis using s by (simp add: P'_eq pos_divide_le_eq)
  qed
  have "Q * R * (s * s) \<le> a * a + Q * a * s"
  proof -
    have "a * a + Q * a * s - Q * R * (s * s) = R * R * (P * P + Q * P - Q * R)"
      by (simp add: a_def s_def algebra_simps)
    moreover have "0 \<le> R * R * (P * P + Q * P - Q * R)"
      using g R by simp
    ultimately show ?thesis by simp
  qed
  moreover have "P' * P' + Q * P' = (a * a + Q * a * s) / (s * s)"
    using s by (simp add: P'_eq field_simps)
  ultimately have "Q * R \<le> P' * P' + Q * P'"
    using s by (simp add: pos_le_divide_eq)
  with pos le show ?thesis by simp
qed

lemma steady_step:
  assumes "steady f"
  shows "\<exists>v f'. kf_filter (Some z) f = Inr (v, f') \<and> steady f' \<and> kf_P f' \<le> kf_P f"
proof -
  from assms have R: "0 < kf_R f" and Q: "0 < kf_Q f" and P: "0 < kf_P f"
    and g: "kf_Q f * kf_R f \<le> kf_P f * kf_P f + kf_Q f * kf_P f"
    by (simp_all add: steady_def)
  have nz: "kf_P f + kf_Q f + kf_R f \<noteq> 0" using R Q P by simp
  show ?thesis
    using variance_step [OF R Q P g] R Q
    by (simp add: kf_filter_some [OF nz] steady_def)
qed

lemma steady_variances:
  assumes "steady f"
  shows "length (variances f zs) = length zs
       \<and> sorted_wrt (\<ge>) (variances f zs)
       \<and> (\<forall>p\<in>set (variances f zs). p \<le> kf_P f)"
  using assms
proof (induction zs arbitrary: f)
  case Nil
  then show ?case by simp
next
  case (Cons z zs)
  from steady_step [OF Cons.prems, of z]
  obtain v f' where st: "kf_filter (Some z) f = Inr (v, f')" "steady f'" "kf_P f' \<le> kf_P f"
    by blast
  note ih = Cons.IH [OF st(2)]
  show ?case using st ih by (auto simp: )
qed

lemma steady_init: "steady (kf_init MEASUREMENT_NOISE_R PROCESS_NOISE_Q x0)"
  by (simp add: steady_def kf_init_def MEASUREMENT_NOISE_R_def PROCESS_NOISE_Q_def)

text \<open>
  Claim C7. From the initial filter (\<open>P = 1.0\<close>, \<open>R = 2.0\<close>, \<open>Q = 0.05\<close>, any initial
  estimate), fed a measurement on every call, every call returns and the variances reported,
  the initial one included, form a non-increasing sequence.
\<close>

theorem variance_non_increasing:
  "length (variances (kf_init MEASUREMENT_NOISE_R PROCESS_NOISE_Q x0) zs) = length zs
   \<and> sorted_wrt (\<ge>) (kf_P (kf_init MEASUREMENT_NOISE_R PROCESS_NOISE_Q x0)
                       # variances (kf_init MEASUREMENT_NOISE_R PROCESS_NOISE_Q x0) zs)"
  using steady_variances [OF steady_init, of x0 zs] by simp

theorem variance_non_increasing_witness:
  "variances (kf_init MEASUREMENT_NOISE_R PROCESS_NOISE_Q (-70)) [-30, -30, -31]
     = [42 / 61, 1802 / 3341, 78762 / 173021]
   \<and> sorted_wrt (\<ge>) [1, 42 / 61, 1802 / 3341, 78762 / 173021 :: real]"
  using variance_non_increasing [of "-70" "[-30, -30, -31]"]
  by (simp add: kf_init_def kf_filter_def MEASUREMENT_NOISE_R_def PROCESS_NOISE_Q_def Let_def)

section \<open>A missed sample in the loop of \<^verbatim>\<open>test12.py\<close>\<close>

text \<open>
  \<^verbatim>\<open>filter(None)\<close> returns the estimate and leaves the filter as it is. The loop does not
  call it for a missing reading; it takes \<open>last_rssi\<close>, which the end of an iteration sets to
  the filtered value, but not the iterations that leave through \<^verbatim>\<open>continue\<close>.
\<close>

lemma filter_none_unchanged: "kf_filter None f = Inr (kf_x f, f)"
  by (simp add: kf_filter_def)

text \<open>
  Claim C8, evaluated on the code. Two readings of \<open>-30\<close> bring the estimate from \<open>-70\<close> to
  \<open>-3430/61\<close> and then to \<open>-164230/3341\<close>, above \<open>APPROACH_THRESHOLD\<close>: the second iteration
  switches to APPROACH and leaves through \<^verbatim>\<open>continue\<close>, so \<open>last_rssi\<close> still holds
  \<open>-3430/61\<close>. A missing reading in the third iteration then yields \<open>-3430/61\<close> as the
  filtered signal, although the filter's estimate, which \<^verbatim>\<open>filter(None)\<close> would return, is
  \<open>-164230/3341\<close>.
\<close>

theorem missed_sample_after_continue:
  "run_k tick12 kctrl_init [reading_only (Some (-30)), reading_only (Some (-30))]
     = \<lparr> kf = \<lparr> kf_R = 2, kf_Q = 1 / 20, kf_x = - 164230 / 3341, kf_P = 1802 / 3341 \<rparr>,
         state_k = APPROACH, last_rssi = - 3430 / 61, spiral_angle = - 699 / 20 \<rparr>
   \<and> smooth None
        (run_k tick12 kctrl_init [reading_only (Some (-30)), reading_only (Some (-30))])
     = Inr (- 3430 / 61,
            run_k tick12 kctrl_init [reading_only (Some (-30)), reading_only (Some (-30))])
   \<and> kf_filter None
        (kf (run_k tick12 kctrl_init [reading_only (Some (-30)), reading_only (Some (-30))]))
     = Inr (- 164230 / 3341,
            kf (run_k tick12 kctrl_init [reading_only (Some (-30)), reading_only (Some (-30))]))
   \<and> (- 3430 / 61 :: real) \<noteq> - 164230 / 3341"
proof -
  have r: "run_k tick12 kctrl_init [reading_only (Some (-30)), reading_only (Some (-30))]
     = \<lparr> kf = \<lparr> kf_R = 2, kf_Q = 1 / 20, kf_x = - 164230 / 3341, kf_P = 1802 / 3341 \<rparr>,
         state_k = APPROACH, last_rssi = - 3430 / 61, spiral_angle = - 699 / 20 \<rparr>"
    by (simp add: tick12_def smooth_def kf_filter_def kctrl_init_def kf_init_def
        reading_only_def close_k_def spiral_step_def Let_def
        MEASUREMENT_NOISE_R_def PROCESS_NOISE_Q_def MAX_STEER_ANGLE_def
        APPROACH_THRESHOLD_K_def)
  show ?thesis
    unfolding r by (simp add: smooth_def kf_filter_def)
qed

section \<open>Burst sampling in \<^verbatim>\<open>final_version.py\<close>\<close>

lemma sum_list_insort: "sum_list (insort v xs) = v + sum_list (xs :: real list)"
  by (induction xs) simp_all

lemma sum_list_sort: "sum_list (sort xs) = sum_list (xs :: real list)"
  by (induction xs) (simp_all add: sum_list_insort)

lemma mean_sort: "mean (sort xs) = mean xs"
  by (simp add: mean_def sum_list_sort)

lemma sort_empty_iff: "sort xs = [] \<longleftrightarrow> (xs :: real list) = []"
  by (metis length_sort length_0_conv)

text \<open>
  Claim C6 as amended. With no valid reading the burst yields nothing; with 1 to 9 valid
  readings it yields their plain mean (for 5 to 9 the readings are sorted, but a tenth of
  their number truncates to zero and nothing is discarded); with 10 or more it yields the
  mean of the sorted readings after a tenth of their number, rounded down, is dropped at
  each end.
\<close>

theorem burst_estimate:
  "get_averaged_rssi reads =
     (let readings = valid_readings reads; n = length readings
      in if n = 0 then None
         else if n < 10 then Some (mean readings)
         else Some (trimmed_mean (n div 10) readings))"
proof -
  let ?rs = "valid_readings reads"
  let ?n = "length ?rs"
  consider "?n = 0" | "0 < ?n" "?n < 5" | "5 \<le> ?n" "?n < 10" | "10 \<le> ?n" by linarith
  then show ?thesis
  proof cases
    case 1
    then show ?thesis by (simp add: get_averaged_rssi_def valid_readings_def)
  next
    case 2
    then show ?thesis
      by (auto simp add: get_averaged_rssi_def valid_readings_def Let_def)
  next
    case 3
    then have "?n div 10 = 0" by simp
    with 3 show ?thesis
      by (auto simp add: get_averaged_rssi_def valid_readings_def Let_def mean_sort
          sort_empty_iff)
  next
    case 4
    then have t: "0 < ?n div 10" by (simp add: div_greater_zero_iff)
    have "?n div 10 + ?n div 10 < ?n" using 4 by linarith
    then have ne: "drop (?n div 10) (take (?n - ?n div 10) (sort ?rs)) \<noteq> []"
      by simp
    show ?thesis
      using 4 t ne
      by (auto simp add: get_averaged_rssi_def valid_readings_def Let_def trimmed_mean_def)
  qed
qed

theorem burst_estimate_witness:
  "get_averaged_rssi [Some (-90), None, Some (-50), Some (-50), Some (-50), Some (-50)]
     = Some (-58)
   \<and> get_averaged_rssi
       [Some (-90), Some (-50), Some (-51), Some (-50), Some (-50), Some (-50), Some (-50),
        Some (-50), Some (-50), Some (-20)] = Some (- 401 / 8)
   \<and> get_averaged_rssi [None, None] = None"
  using burst_estimate [of "[Some (-90), None, Some (-50), Some (-50), Some (-50), Some (-50)]"]
        burst_estimate [of "[None, None]"]
  by (simp add: get_averaged_rssi_def List.map_filter_def mean_def)

text \<open>
  Claim C6, the statement as written fails: five valid readings with one outlier yield the
  plain mean \<open>-58\<close>, not the mean \<open>-50\<close> left after one reading is dropped at each end.
\<close>

theorem five_readings_plain_mean_counterexample:
  "get_averaged_rssi [Some (-90), Some (-50), Some (-50), Some (-50), Some (-50)] = Some (-58)
   \<and> mean [-90, -50, -50, -50, -50] = -58
   \<and> trimmed_mean 1 [-90, -50, -50, -50, -50] = -50"
  by (simp add: get_averaged_rssi_def List.map_filter_def mean_def trimmed_mean_def)

section \<open>Steering commands of \<^verbatim>\<open>test12.py\<close> and \<^verbatim>\<open>test24.py\<close>\<close>

lemma steer_angles_append: "steer_angles (xs @ ys) = steer_angles xs @ steer_angles ys"
  by (induction xs rule: steer_angles.induct) simp_all

lemma py_int_spiral:
  assumes "-35 \<le> v" "v < 0.05"
  shows "-35 \<le> py_int v \<and> py_int v \<le> 35"
proof (cases "0 \<le> v")
  case True
  then have "\<lfloor>v\<rfloor> = 0" using assms(2) by (simp add: floor_eq_iff)
  with True show ?thesis by (simp add: py_int_def)
next
  case False
  then have "\<lceil>v\<rceil> \<le> 0" by (simp add: ceiling_le_iff)
  moreover have "-35 \<le> \<lceil>v\<rceil>" using assms(1) by (simp add: le_ceiling_iff)
  ultimately show ?thesis using False by (simp add: py_int_def)
qed

lemma py_int_clamp:
  "-35 \<le> py_int (clamp v (-35) 35) \<and> py_int (clamp v (-35) 35) \<le> 35"
  by (auto simp: py_int_def clamp_def le_floor_iff floor_le_iff le_ceiling_iff ceiling_le_iff)

lemma scan_direction_cases: "scan_direction l r = -1 \<or> scan_direction l r = 1"
  by (simp add: scan_direction_def Let_def)

lemma spiral_step_ok: "spiral_ok s \<Longrightarrow> spiral_ok (spiral_step s)"
  by (simp add: spiral_ok_def spiral_step_def MAX_STEER_ANGLE_def)

lemma spiral_ok_update [simp]:
  "spiral_ok (s\<lparr>last_rssi := r\<rparr>) = spiral_ok s"
  "spiral_ok (s\<lparr>state_k := n\<rparr>) = spiral_ok s"
  "spiral_ok (s\<lparr>kf := f\<rparr>) = spiral_ok s"
  by (simp_all add: spiral_ok_def)

lemma smooth_spiral:
  "smooth raw s = Inr (v, s') \<Longrightarrow> spiral_angle s' = spiral_angle s"
  by (auto simp: smooth_def split: option.splits sum.splits)

lemma steer_ok_spiral: "spiral_ok s \<Longrightarrow> steer_ok (py_int (spiral_angle s))"
  using py_int_spiral [of "spiral_angle s"]
  by (simp add: spiral_ok_def steer_ok_def MAX_STEER_ANGLE_def)

lemma steer_ok_consts:
  "steer_ok 0" "steer_ok 20" "steer_ok (scan_direction l r * MAX_STEER_ANGLE)"
  "steer_ok MAX_STEER_ANGLE" "steer_ok (- MAX_STEER_ANGLE)"
  "steer_ok (py_int (clamp v (of_int (- MAX_STEER_ANGLE)) (of_int MAX_STEER_ANGLE)))"
  "steer_ok (py_int (clamp v (- of_int MAX_STEER_ANGLE) (of_int MAX_STEER_ANGLE)))"
  using scan_direction_cases [of l r] py_int_clamp [of v]
  by (auto simp: steer_ok_def MAX_STEER_ANGLE_def)

lemma scan_actions_steer [simp]:
  "steer_angles scan_actions12 = []" "steer_angles scan_actions24 = []"
  "steer_angles scan_actions25 = []" "steer_angles finally_actions = [0]"
  by (simp_all add: scan_actions12_def scan_actions24_def scan_actions25_def
      finally_actions_def center_head_def)

lemma tick12_ok:
  assumes "spiral_ok s"
  shows "tick_ok (tick12 inp s)"
proof (cases "smooth (raw_rssi inp) s")
  case (Inl e)
  then show ?thesis by (simp add: tick12_def tick_ok_def)
next
  case (Inr p)
  obtain rssi s1 where p: "p = (rssi, s1)" by (cases p)
  have ok1: "spiral_ok s1"
    using smooth_spiral [OF Inr [unfolded p]] assms by (simp add: spiral_ok_def)
  show ?thesis
    using ok1 steer_ok_spiral [OF ok1] spiral_step_ok [OF ok1]
    by (cases "state_k s1")
       (simp_all add: tick12_def tick_ok_def Inr p Let_def steer_ok_consts steer_angles_append)
qed

lemma vision_safety_ok:
  assumes "vision_safety sc s = (s', acts)"
  shows "spiral_angle s' = spiral_angle s \<and> list_all steer_ok (steer_angles acts)
         \<and> (state_k s' = state_k s \<or> state_k s' = AVOID)"
  using assms
  by (auto simp: vision_safety_def Let_def steer_ok_consts split: option.splits if_splits)

lemma tick24_ok:
  assumes "spiral_ok s"
  shows "tick_ok (tick24 inp s)"
proof (cases "smooth (raw_rssi inp) s")
  case (Inl e)
  then show ?thesis by (simp add: tick24_def tick_ok_def)
next
  case (Inr p)
  obtain rssi s1 where p: "p = (rssi, s1)" by (cases p)
  have ok1: "spiral_ok s1"
    using smooth_spiral [OF Inr [unfolded p]] assms by (simp add: spiral_ok_def)
  define s2 where "s2 = (if close_k (range_cm inp) \<and> state_k s1 \<noteq> FINISH
                          then s1\<lparr>state_k := AVOID\<rparr> else s1)"
  have ok2: "spiral_ok s2" using ok1 by (simp add: s2_def)
  obtain s3 vis_acts where v: "vision_safety (vision inp) s2 = (s3, vis_acts)"
    by (cases "vision_safety (vision inp) s2")
  from vision_safety_ok [OF v] ok2
  have ok3: "spiral_ok s3" and va: "list_all steer_ok (steer_angles vis_acts)"
    by (simp_all add: spiral_ok_def)
  have dir: "steer_ok ((case vision inp of
                 Some v \<Rightarrow> (if free_left v > free_right v then -1 else 1)
               | None \<Rightarrow> scan_direction (scan_left inp) (scan_right inp)) * MAX_STEER_ANGLE)"
    using steer_ok_consts(3) [of "scan_left inp" "scan_right inp"]
    by (auto simp: steer_ok_def MAX_STEER_ANGLE_def split: option.splits)
  have t: "tick24 inp s =
     (case state_k s3 of
               AVOID \<Rightarrow>
                 (let (direction, scan_acts) =
                        (case vision inp of
                           Some v \<Rightarrow> (if free_left v > free_right v then -1 else 1, [])
                         | None \<Rightarrow>
                             (scan_direction (scan_left inp) (scan_right inp), scan_actions24));
                      turn_angle = direction * MAX_STEER_ANGLE
                  in Next (s3\<lparr>last_rssi := rssi, state_k := SEARCH\<rparr>)
                       (vis_acts @ scan_acts @
                        [SetDirServoAngle 0, Backward SPEED_SEARCH_K, Sleep 0.8,
                         SetDirServoAngle turn_angle, Forward SPEED_SEARCH_K, Sleep 0.6,
                         Sleep 0.05]))
             | SEARCH \<Rightarrow>
                 (if rssi > APPROACH_THRESHOLD_K
                  then Next (s3\<lparr>state_k := APPROACH\<rparr>) (vis_acts @ [SetDirServoAngle 0])
                  else Next ((spiral_step s3)\<lparr>last_rssi := rssi\<rparr>)
                         (vis_acts @
                          [Forward SPEED_SEARCH_K, SetDirServoAngle (py_int (spiral_angle s3)),
                           Sleep 0.05]))
             | APPROACH \<Rightarrow>
                 (if rssi \<ge> TARGET_RSSI_K
                  then Next (s3\<lparr>state_k := FINISH\<rparr>) vis_acts
                  else
                    let delta = rssi - last_rssi s3
                    in if delta \<ge> 0
                       then Next (s3\<lparr>last_rssi := rssi\<rparr>)
                              (vis_acts @ [Forward SPEED_APPROACH_K, Sleep 0.05])
                       else Next (s3\<lparr>last_rssi := rssi\<rparr>)
                              (vis_acts @
                               [SetDirServoAngle
                                  (py_int (clamp 20 (of_int (- MAX_STEER_ANGLE))
                                             (of_int MAX_STEER_ANGLE))),
                                Forward SPEED_APPROACH_K, Sleep 0.05]))
             | FINISH \<Rightarrow> Break s3 (vis_acts @ [Stop, SetDirServoAngle 0])
             | VERIFY \<Rightarrow> Next (s3\<lparr>last_rssi := rssi\<rparr>) (vis_acts @ [Sleep 0.05]))"
    by (simp add: tick24_def Inr p Let_def s2_def [symmetric] v)
  show ?thesis
    unfolding t
    using ok3 va dir steer_ok_spiral [OF ok3] spiral_step_ok [OF ok3]
    by (cases "state_k s3")
       (auto simp add: tick_ok_def Let_def steer_ok_consts steer_angles_append
          split: option.splits)
qed

lemma emitted_ok:
  assumes step: "\<And>inp s. spiral_ok s \<Longrightarrow> tick_ok (tick inp s)"
      and "spiral_ok s"
  shows "list_all steer_ok (steer_angles (emitted tick s inps))"
  using assms(2)
proof (induction inps arbitrary: s)
  case Nil
  then show ?case by simp
next
  case (Cons inp inps)
  from step [OF Cons.prems, of inp] show ?case
    using Cons.IH
    by (cases "tick inp s")
       (simp_all add: tick_ok_def steer_angles_append steer_ok_consts)
qed

text \<open>
  Claim C2. The initial controller has its spiral angle in range, and from any controller
  whose spiral angle is in range (every iteration keeps it there) every angle sent to the
  steering servo over a run of the loop, for any readings, rangefinder values and vision
  scores, lies within \<open>[-MAX_STEER_ANGLE, MAX_STEER_ANGLE]\<close>; this holds for the loop of
  \<^verbatim>\<open>test12.py\<close> and for that of \<^verbatim>\<open>test24.py\<close>, the \<^verbatim>\<open>finally\<close> block included.
\<close>

theorem steer_angle_within_limits:
  "spiral_ok kctrl_init
   \<and> (spiral_ok s \<longrightarrow>
         list_all steer_ok (steer_angles (emitted tick12 s inps))
       \<and> list_all steer_ok (steer_angles (emitted tick24 s inps)))"
proof -
  have "spiral_ok kctrl_init"
    by (simp add: spiral_ok_def kctrl_init_def MAX_STEER_ANGLE_def)
  moreover have "list_all steer_ok (steer_angles (emitted tick12 s inps))" if "spiral_ok s"
    using tick12_ok that by (rule emitted_ok)
  moreover have "list_all steer_ok (steer_angles (emitted tick24 s inps))" if "spiral_ok s"
    using tick24_ok that by (rule emitted_ok)
  ultimately show ?thesis by simp
qed

theorem steer_angle_within_limits_witness:
  "spiral_ok kctrl_init
   \<and> steer_angles (emitted tick12 kctrl_init steer_scenario) = [-35, 0, -35]
   \<and> steer_angles (emitted tick24 kctrl_init steer_scenario) = [35, -35, 0, -35]
   \<and> list_all steer_ok [35, -35, 0, -35]"
proof -
  have ok: "spiral_ok kctrl_init"
    by (simp add: spiral_ok_def kctrl_init_def MAX_STEER_ANGLE_def)
  have e12: "steer_angles (emitted tick12 kctrl_init steer_scenario) = [-35, 0, -35]"
    by (simp add: steer_scenario_def tick12_def smooth_def kf_filter_def kctrl_init_def
        kf_init_def close_k_def spiral_step_def Let_def py_int_def scan_direction_def
        scan_actions12_def center_head_def
        MEASUREMENT_NOISE_R_def PROCESS_NOISE_Q_def MAX_STEER_ANGLE_def
        APPROACH_THRESHOLD_K_def OBSTACLE_DIST_CM_K_def)
  have e24: "steer_angles (emitted tick24 kctrl_init steer_scenario) = [35, -35, 0, -35]"
    by (simp add: steer_scenario_def tick24_def vision_safety_def smooth_def kf_filter_def
        kctrl_init_def kf_init_def close_k_def spiral_step_def Let_def py_int_def clamp_def
        scan_direction_def scan_actions24_def center_head_def
        MEASUREMENT_NOISE_R_def PROCESS_NOISE_Q_def MAX_STEER_ANGLE_def
        APPROACH_THRESHOLD_K_def OBSTACLE_DIST_CM_K_def VISION_FREE_AHEAD_MIN_def
        VISION_STEER_GAIN_def)
  from steer_angle_within_limits [of kctrl_init steer_scenario] ok e12 e24
  show ?thesis by simp
qed

section \<open>State transitions of \<^verbatim>\<open>final_version.py\<close> and \<^verbatim>\<open>test25.py\<close>\<close>

text \<open>
  Claim C9, the statement as written fails: the fifth sample, the first at or above the
  target, already moves the controller from APPROACH to VERIFY, and it is in VERIFY, not in
  APPROACH, when the seventh sample arrives.
\<close>

theorem end_to_end_verify_on_fifth_counterexample:
  "states_after end_to_end_config (ctrl_init 0) end_to_end_inputs ! 3 = APPROACH
   \<and> states_after end_to_end_config (ctrl_init 0) end_to_end_inputs ! 4 = VERIFY
   \<and> states_after end_to_end_config (ctrl_init 0) end_to_end_inputs ! 5 = VERIFY"
  by (simp add: end_to_end_inputs_def end_to_end_signal_def tick_of_def end_to_end_config_def
      final_version_config_def ctrl_init_def loop_body_def check_obstacle_def
      dispatch_def handle_search_def handle_approach_def handle_verify_def Let_def
      py_fmod_def TIME_STRAIGHT_def TIME_TURN_def)

text \<open>
  Claim C9 as amended. Started by \<^verbatim>\<open>run\<close> with any first burst estimate and fed the eight
  samples with nothing in range of the rangefinder, at any clock values, the controller goes from SEARCH to APPROACH on the fourth sample and from
  APPROACH to VERIFY on the fifth, and is still verifying after the eighth.
\<close>

theorem end_to_end_transitions:
  assumes sig: "map in_rssi inps = map Some end_to_end_signal"
      and clear: "list_all (\<lambda>inp. \<not> close_reading end_to_end_config (in_dist inp)) inps"
  shows "states_after end_to_end_config (run_start t0 start_val) inps =
           [SEARCH, SEARCH, SEARCH, APPROACH, VERIFY, VERIFY, VERIFY, VERIFY]"
proof -
  from sig obtain i1 i2 i3 i4 i5 i6 i7 i8 where
    inps: "inps = [i1, i2, i3, i4, i5, i6, i7, i8]" and
    r: "in_rssi i1 = Some (-70)" "in_rssi i2 = Some (-68)" "in_rssi i3 = Some (-60)"
       "in_rssi i4 = Some (-52)" "in_rssi i5 = Some (-44)" "in_rssi i6 = Some (-44)"
       "in_rssi i7 = Some (-44)" "in_rssi i8 = Some (-44)"
    unfolding end_to_end_signal_def by (auto simp: map_eq_Cons_conv)
  from clear have c:
    "\<not> close_reading end_to_end_config (in_dist i1)" "\<not> close_reading end_to_end_config (in_dist i2)"
    "\<not> close_reading end_to_end_config (in_dist i3)" "\<not> close_reading end_to_end_config (in_dist i4)"
    "\<not> close_reading end_to_end_config (in_dist i5)" "\<not> close_reading end_to_end_config (in_dist i6)"
    "\<not> close_reading end_to_end_config (in_dist i7)" "\<not> close_reading end_to_end_config (in_dist i8)"
    by (simp_all add: inps)
  have cfg: "APPROACH_THRESHOLD end_to_end_config = -55" "TARGET_RSSI end_to_end_config = -46"
    "VERIFY_TOTAL_CHECKS end_to_end_config = 20"
    by (simp_all add: end_to_end_config_def final_version_config_def)
  have "\<exists>p. run_start t0 start_val = (ctrl_init t0)\<lparr>prev_avg_rssi := p\<rparr>"
  proof (cases start_val)
    case None
    then have "run_start t0 start_val = (ctrl_init t0)\<lparr>prev_avg_rssi := -100\<rparr>"
      by (simp add: run_start_def ctrl_init_def)
    then show ?thesis ..
  next
    case (Some v)
    then have "run_start t0 start_val = (ctrl_init t0)\<lparr>prev_avg_rssi := (if v \<noteq> 0 then v else -100)\<rparr>"
      by (simp add: run_start_def ctrl_init_def)
    then show ?thesis ..
  qed
  then obtain p where st: "run_start t0 start_val = (ctrl_init t0)\<lparr>prev_avg_rssi := p\<rparr>" ..
  show ?thesis
    unfolding inps st
    by (simp add: r c cfg loop_body_def check_obstacle_far ctrl_init_def
        dispatch_def handle_search_def handle_approach_def handle_verify_def Let_def)
qed

theorem end_to_end_transitions_witness:
  "map in_rssi end_to_end_inputs = map Some end_to_end_signal
   \<and> list_all (\<lambda>inp. \<not> close_reading end_to_end_config (in_dist inp)) end_to_end_inputs
   \<and> states_after end_to_end_config (run_start 0 (Some (-75))) end_to_end_inputs =
       [SEARCH, SEARCH, SEARCH, APPROACH, VERIFY, VERIFY, VERIFY, VERIFY]"
proof -
  have h1: "map in_rssi end_to_end_inputs = map Some end_to_end_signal"
    by (simp add: end_to_end_inputs_def tick_of_def)
  have h2: "list_all (\<lambda>inp. \<not> close_reading end_to_end_config (in_dist inp)) end_to_end_inputs"
    by (simp add: end_to_end_inputs_def tick_of_def end_to_end_signal_def close_reading_def)
  from end_to_end_transitions [OF h1 h2, of 0 "Some (-75)"] h1 h2 show ?thesis by simp
qed

text \<open>
  Claim C3, the statement as written fails on \<^verbatim>\<open>final_version.py\<close>: its monitor is skipped in
  FINISH only. With a strong signal the controller reaches VERIFY in two iterations; two
  readings of 10 cm then confirm an obstacle, the avoidance maneuver runs and the state is
  SEARCH. With the last reading out of range the controller stays in VERIFY.
\<close>

theorem obstacle_preempts_verify_counterexample:
  "states_after final_version_config (ctrl_init 0) obstacle_in_verify_inputs
     = [APPROACH, VERIFY, VERIFY, SEARCH]
   \<and> states_after final_version_config (ctrl_init 0) clear_in_verify_inputs
     = [APPROACH, VERIFY, VERIFY, VERIFY]"
  by (simp add: obstacle_in_verify_inputs_def clear_in_verify_inputs_def tick_of_def
      final_version_config_def ctrl_init_def loop_body_def check_obstacle_def
      avoid_obstacle_def dispatch_def handle_search_def handle_approach_def handle_verify_def
      Let_def)

lemma smooth_fields:
  "smooth raw s = Inr (v, s') \<Longrightarrow>
     state_k s' = state_k s \<and> obstacle_counter_k s' = obstacle_counter_k s"
  by (auto simp: smooth_def split: option.splits sum.splits)

lemma final_version_preempt:
  assumes "state s \<noteq> FINISH" "in_rssi inp = Some c" "fst (check_obstacle cfg (in_dist inp) s)"
  shows "loop_body cfg inp s =
           Next (fst (avoid_obstacle cfg (in_now inp) (snd (check_obstacle cfg (in_dist inp) s))))
                (snd (avoid_obstacle cfg (in_now inp) (snd (check_obstacle cfg (in_dist inp) s))))"
    and "state (fst (avoid_obstacle cfg (in_now inp) (snd (check_obstacle cfg (in_dist inp) s))))
           = SEARCH"
proof -
  obtain flag s1 where c: "check_obstacle cfg (in_dist inp) s = (flag, s1)"
    by (cases "check_obstacle cfg (in_dist inp) s")
  with assms(3) have flag by simp
  with assms(1,2) c show "loop_body cfg inp s =
           Next (fst (avoid_obstacle cfg (in_now inp) (snd (check_obstacle cfg (in_dist inp) s))))
                (snd (avoid_obstacle cfg (in_now inp) (snd (check_obstacle cfg (in_dist inp) s))))"
    by (simp add: loop_body_def Let_def split: prod.splits)
  show "state (fst (avoid_obstacle cfg (in_now inp) (snd (check_obstacle cfg (in_dist inp) s))))
           = SEARCH"
    by (simp add: avoid_obstacle_def)
qed

lemma final_version_finish:
  assumes "state s = FINISH"
  shows "loop_body cfg (inp\<lparr>in_dist := d\<rparr>) s = loop_body cfg inp s"
    and "loop_body cfg inp s = Next s [] \<or> (\<exists>acts. loop_body cfg inp s = Break s acts)"
  using assms by (simp_all add: loop_body_def dispatch_def Let_def split: option.splits)

lemma test25_preempt:
  assumes st: "state_k s = SEARCH \<or> state_k s = APPROACH"
      and sm: "smooth (raw_rssi inp) s = Inr (rssi, s1)"
      and cl: "close_k (range_cm inp)"
      and cnt: "obstacle_counter_k s + 1 \<ge> OBSTACLE_CONFIRM_COUNT"
  shows "state_k (obstacle_filter25 (range_cm inp) s1) = AVOID"
    and "\<exists>acts. tick25 inp s =
           Next (s1\<lparr>obstacle_counter_k := 0, last_rssi := rssi, state_k := SEARCH\<rparr>) acts"
proof -
  from smooth_fields [OF sm] st cnt
  have s1: "state_k s1 = SEARCH \<or> state_k s1 = APPROACH"
    "obstacle_counter_k s1 + 1 \<ge> OBSTACLE_CONFIRM_COUNT" by simp_all
  then have f: "obstacle_filter25 (range_cm inp) s1 = s1\<lparr>state_k := AVOID, obstacle_counter_k := 0\<rparr>"
    using cl by (auto simp: obstacle_filter25_def Let_def)
  show "state_k (obstacle_filter25 (range_cm inp) s1) = AVOID" by (simp add: f)
  show "\<exists>acts. tick25 inp s =
           Next (s1\<lparr>obstacle_counter_k := 0, last_rssi := rssi, state_k := SEARCH\<rparr>) acts"
    by (simp add: tick25_def sm f state_logic25_def Let_def)
qed

lemma state_logic25_range:
  "state_logic25 (inp\<lparr>range_cm := d\<rparr>) rssi s = state_logic25 inp rssi s"
  by (cases "state_k s") (simp_all add: state_logic25_def)

lemma obstacle_filter25_skipped:
  "state_k s = VERIFY \<or> state_k s = FINISH \<Longrightarrow> obstacle_filter25 d s = s"
  by (auto simp: obstacle_filter25_def)

lemma test25_no_preempt:
  assumes "state_k s = VERIFY \<or> state_k s = FINISH"
  shows "tick25 (inp\<lparr>range_cm := d\<rparr>) s = tick25 inp s"
proof (cases "smooth (raw_rssi inp) s")
  case (Inl e)
  then show ?thesis by (simp add: tick25_def)
next
  case (Inr p)
  obtain rssi s1 where p: "p = (rssi, s1)" by (cases p)
  from smooth_fields [OF Inr [unfolded p]] assms
  have "state_k s1 = VERIFY \<or> state_k s1 = FINISH" by simp
  then have "obstacle_filter25 d' s1 = s1" for d'
    by (rule obstacle_filter25_skipped)
  then show ?thesis
    by (simp add: tick25_def Inr p state_logic25_range)
qed

text \<open>
  Claim C3 as amended. In \<^verbatim>\<open>final_version.py\<close> a confirmed obstacle in any state but FINISH
  (SEARCH, APPROACH and also VERIFY) runs the avoidance maneuver in place of the state's
  handler and leaves the controller in SEARCH; in FINISH the rangefinder value is not looked
  at and the state stays FINISH. In \<^verbatim>\<open>test25.py\<close> an obstacle confirmed in SEARCH or APPROACH
  sets the state to AVOID before the branch on the state, whose AVOID branch then runs; in
  VERIFY and FINISH the monitor is skipped and the rangefinder value has no effect on the
  iteration.
\<close>

theorem obstacle_preemption:
  "(state s \<noteq> FINISH \<and> in_rssi inp = Some c \<and> fst (check_obstacle cfg (in_dist inp) s) \<longrightarrow>
      loop_body cfg inp s =
        Next (fst (avoid_obstacle cfg (in_now inp) (snd (check_obstacle cfg (in_dist inp) s))))
             (snd (avoid_obstacle cfg (in_now inp) (snd (check_obstacle cfg (in_dist inp) s))))
      \<and> state (fst (avoid_obstacle cfg (in_now inp) (snd (check_obstacle cfg (in_dist inp) s))))
          = SEARCH)
   \<and> (state s = FINISH \<longrightarrow>
        loop_body cfg (inp\<lparr>in_dist := d\<rparr>) s = loop_body cfg inp s
      \<and> (loop_body cfg inp s = Next s [] \<or> (\<exists>acts. loop_body cfg inp s = Break s acts)))
   \<and> ((state_k t = SEARCH \<or> state_k t = APPROACH)
        \<and> smooth (raw_rssi kin) t = Inr (rssi, t1) \<and> close_k (range_cm kin)
        \<and> OBSTACLE_CONFIRM_COUNT \<le> obstacle_counter_k t + 1 \<longrightarrow>
        state_k (obstacle_filter25 (range_cm kin) t1) = AVOID
      \<and> (\<exists>acts. tick25 kin t =
            Next (t1\<lparr>obstacle_counter_k := 0, last_rssi := rssi, state_k := SEARCH\<rparr>) acts))
   \<and> (state_k t = VERIFY \<or> state_k t = FINISH \<longrightarrow>
        obstacle_filter25 d t = t \<and> tick25 (kin\<lparr>range_cm := d\<rparr>) t = tick25 kin t)"
proof (intro conjI impI)
  assume a: "state s \<noteq> FINISH \<and> in_rssi inp = Some c \<and> fst (check_obstacle cfg (in_dist inp) s)"
  then show "loop_body cfg inp s =
        Next (fst (avoid_obstacle cfg (in_now inp) (snd (check_obstacle cfg (in_dist inp) s))))
             (snd (avoid_obstacle cfg (in_now inp) (snd (check_obstacle cfg (in_dist inp) s))))"
    by (intro final_version_preempt(1)) simp_all
  from a show "state (fst (avoid_obstacle cfg (in_now inp)
                 (snd (check_obstacle cfg (in_dist inp) s)))) = SEARCH"
    by (intro final_version_preempt(2)) simp_all
next
  assume a: "state s = FINISH"
  then show "loop_body cfg (inp\<lparr>in_dist := d\<rparr>) s = loop_body cfg inp s"
    by (rule final_version_finish(1))
  from a show "loop_body cfg inp s = Next s [] \<or> (\<exists>acts. loop_body cfg inp s = Break s acts)"
    by (rule final_version_finish(2))
next
  assume a: "(state_k t = SEARCH \<or> state_k t = APPROACH)
        \<and> smooth (raw_rssi kin) t = Inr (rssi, t1) \<and> close_k (range_cm kin)
        \<and> OBSTACLE_CONFIRM_COUNT \<le> obstacle_counter_k t + 1"
  then show "state_k (obstacle_filter25 (range_cm kin) t1) = AVOID"
    by (intro test25_preempt(1) [of t]) simp_all
  from a show "\<exists>acts. tick25 kin t =
            Next (t1\<lparr>obstacle_counter_k := 0, last_rssi := rssi, state_k := SEARCH\<rparr>) acts"
    by (intro test25_preempt(2)) simp_all
next
  assume a: "state_k t = VERIFY \<or> state_k t = FINISH"
  then show "obstacle_filter25 d t = t" by (rule obstacle_filter25_skipped)
  from a show "tick25 (kin\<lparr>range_cm := d\<rparr>) t = tick25 kin t" by (rule test25_no_preempt)
qed

theorem obstacle_preemption_witness:
  "state ((ctrl_init 0)\<lparr>obstacle_counter := 1\<rparr>) = SEARCH
   \<and> fst (check_obstacle final_version_config (Some 10) ((ctrl_init 0)\<lparr>obstacle_counter := 1\<rparr>))
   \<and> loop_body final_version_config (tick_of (-60) (Some 10))
        ((ctrl_init 0)\<lparr>obstacle_counter := 1\<rparr>)
       = Next ((ctrl_init 0)\<lparr>obstacle_counter := 2\<rparr>)
           [Stop, SetDirServoAngle 0, Backward 40, Sleep 1, SetDirServoAngle (-35), Forward 40,
            Sleep 0.8]
   \<and> loop_body final_version_config (tick_of (-60) (Some 10)) ((ctrl_init 0)\<lparr>state := FINISH\<rparr>)
       = Break ((ctrl_init 0)\<lparr>state := FINISH\<rparr>) [Stop, Stop, Sleep 5]
   \<and> state_k (ctrl25_init\<lparr>obstacle_counter_k := 2\<rparr>) = SEARCH
   \<and> close_k (range_cm blocked_input)
   \<and> state_k (obstacle_filter25 (range_cm blocked_input) (ctrl25_init\<lparr>obstacle_counter_k := 2\<rparr>))
       = AVOID
   \<and> obstacle_filter25 (Some 10) (ctrl25_init\<lparr>state_k := VERIFY, obstacle_counter_k := 2\<rparr>)
       = ctrl25_init\<lparr>state_k := VERIFY, obstacle_counter_k := 2\<rparr>
   \<and> tick25 blocked_input (ctrl25_init\<lparr>state_k := VERIFY, obstacle_counter_k := 2\<rparr>)
       = tick25 (blocked_input\<lparr>range_cm := None\<rparr>)
           (ctrl25_init\<lparr>state_k := VERIFY, obstacle_counter_k := 2\<rparr>)"
proof -
  let ?s = "(ctrl_init 0)\<lparr>obstacle_counter := 1\<rparr>"
  let ?t = "ctrl25_init\<lparr>obstacle_counter_k := 2\<rparr>"
  let ?v = "ctrl25_init\<lparr>state_k := VERIFY, obstacle_counter_k := 2\<rparr>"
  have h1: "state ?s = SEARCH" "state ?s \<noteq> FINISH" by (simp_all add: ctrl_init_def)
  have h2: "fst (check_obstacle final_version_config (Some 10) ?s)"
    by (simp add: check_obstacle_def final_version_config_def ctrl_init_def)
  have h3: "state_k ?t = SEARCH" "state_k ?v = VERIFY" by (simp_all add: ctrl25_init_def)
  have h4: "close_k (range_cm blocked_input)"
    by (simp add: close_k_def blocked_input_def OBSTACLE_DIST_CM_K_def)
  have h5: "smooth (raw_rssi blocked_input) ?t = Inr (-100, ?t)"
    by (simp add: smooth_def blocked_input_def ctrl25_init_def)
  have h6: "OBSTACLE_CONFIRM_COUNT \<le> obstacle_counter_k ?t + 1"
    by (simp add: OBSTACLE_CONFIRM_COUNT_def)
  have e1: "loop_body final_version_config (tick_of (-60) (Some 10)) ?s
       = Next ((ctrl_init 0)\<lparr>obstacle_counter := 2\<rparr>)
           [Stop, SetDirServoAngle 0, Backward 40, Sleep 1, SetDirServoAngle (-35), Forward 40,
            Sleep 0.8]"
    by (simp add: loop_body_def tick_of_def check_obstacle_def avoid_obstacle_def
        final_version_config_def ctrl_init_def SPEED_AVOID_def)
  have e2: "loop_body final_version_config (tick_of (-60) (Some 10))
              ((ctrl_init 0)\<lparr>state := FINISH\<rparr>)
       = Break ((ctrl_init 0)\<lparr>state := FINISH\<rparr>) [Stop, Stop, Sleep 5]"
    by (simp add: loop_body_def tick_of_def dispatch_def ctrl_init_def)
  note a = obstacle_preemption [where s = ?s and inp = "tick_of (-60) (Some 10)" and c = "-60"
      and cfg = final_version_config and t = ?t and kin = blocked_input and rssi = "-100"
      and ?t1.0 = ?t and d = "Some 10"]
  note b = obstacle_preemption [where s = "(ctrl_init 0)\<lparr>state := FINISH\<rparr>"
      and inp = "tick_of (-60) (Some 10)" and c = "-60"
      and cfg = final_version_config and t = ?v and kin = blocked_input and rssi = "-100"
      and ?t1.0 = ?v and d = None]
  note c = obstacle_preemption [where s = "(ctrl_init 0)\<lparr>state := FINISH\<rparr>"
      and inp = "tick_of (-60) (Some 10)" and c = "-60"
      and cfg = final_version_config and t = ?v and kin = blocked_input and rssi = "-100"
      and ?t1.0 = ?v and d = "Some 10"]
  have w1: "state_k (obstacle_filter25 (range_cm blocked_input) ?t) = AVOID"
    using a h3 h4 h5 h6 by blast
  have w2: "obstacle_filter25 (Some 10) ?v = ?v"
    using c h3 by blast
  have w3: "tick25 blocked_input ?v = tick25 (blocked_input\<lparr>range_cm := None\<rparr>) ?v"
    using b h3 by simp
  show ?thesis
    using h1(1) h2 e1 e2 h3(1) h4 w1 w2 w3 by simp
qed

section \<open>The Kalman filter in double precision\<close>











lemma ulp_pos [simp]: "0 < ulp v"
  by (simp add: ulp_def)

lemma ulp_nonneg [simp]: "0 \<le> ulp v"
  by (rule less_imp_le) (rule ulp_pos)

lemma ulp_nonzero [simp]: "ulp v \<noteq> 0"
  using ulp_pos [of v] by (simp del: ulp_pos)


lemma binade_neg [simp]: "binade (- v) = binade v"
  by (simp add: binade_def)

lemma ulp_neg [simp]: "ulp (- v) = ulp v"
  by (simp add: ulp_def)

lemma fl_zero [simp]: "fl 0 = 0"
  by (simp add: fl_def)




























































end
